theory Spec2Isabelle
  imports Main "HOL-Library.Multiset"
begin

section \<open>Data model of the message context\<close>

text \<open>
  The development follows \<^verbatim>\<open>MessageContext\<close>, the React provider that owns the
  conversations of the dashboard. Three revisions of it are in the repository: the
  normalizing one (with \<^verbatim>\<open>normalizeMessage\<close> and \<^verbatim>\<open>normalizeMessagesArray\<close>), the
  summary-based one (which fetches the first twenty conversations of a summary list) and
  the plain one (which stores what the backend sends). Definitions of the second and third
  carry the suffixes \<open>_summary\<close> and \<open>_plain\<close>.

  A JavaScript message object is a record of optional fields. An identifier is a number
  (\<^verbatim>\<open>Date.now()\<close>) or a string. A sender or recipient is a string (an id, or in legacy
  records the role) or a populated object. A timestamp is an instant in milliseconds since
  the epoch: the ISO string of the wire format, which is never falsy, read by
  \<^verbatim>\<open>new Date(...)\<close>; strings that are no dates are outside the model.
\<close>

datatype ident = IdNum int | IdStr string

record person =
  p_id :: string
  p_name :: "string option"
  p_email :: "string option"

datatype party = Ref string | Populated person

text \<open>
  Fields of a message object: \<open>m_id\<close> is \<^verbatim>\<open>id\<close>, \<open>m_oid\<close> is \<^verbatim>\<open>_id\<close>, the others carry
  the source's name after the prefix. \<open>m_pending\<close> is false where the property is absent.
\<close>

record msg =
  m_id :: "ident option"
  m_oid :: "ident option"
  m_text :: "string option"
  m_senderType :: "party option"
  m_sender :: "party option"
  m_recipient :: "party option"
  m_conversation :: "string option"
  m_createdAt :: "int option"
  m_timestamp :: "int option"
  m_pending :: bool

definition empty_msg :: msg where
  "empty_msg = \<lparr>m_id = None, m_oid = None, m_text = None, m_senderType = None,
     m_sender = None, m_recipient = None, m_conversation = None, m_createdAt = None,
     m_timestamp = None, m_pending = False\<rparr>"

text \<open>Truthiness of the values that the source tests with \<^verbatim>\<open>||\<close>, \<^verbatim>\<open>&&\<close> and \<^verbatim>\<open>!\<close>.\<close>

fun str_truthy :: "string option \<Rightarrow> bool" where
  "str_truthy None = False"
| "str_truthy (Some s) = (s \<noteq> [])"

fun ident_truthy :: "ident option \<Rightarrow> bool" where
  "ident_truthy None = False"
| "ident_truthy (Some (IdNum n)) = (n \<noteq> 0)"
| "ident_truthy (Some (IdStr s)) = (s \<noteq> [])"

fun party_truthy :: "party option \<Rightarrow> bool" where
  "party_truthy None = False"
| "party_truthy (Some (Ref s)) = (s \<noteq> [])"
| "party_truthy (Some (Populated p)) = True"

text \<open>
  One reading of the environment by one call of \<^verbatim>\<open>normalizeMessage\<close>:
  \<^verbatim>\<open>new Date()\<close>, \<^verbatim>\<open>Date.now()\<close> and \<^verbatim>\<open>Math.random().toString(36).slice(2)\<close>.
\<close>

record tick =
  t_date :: int
  t_now :: int
  t_rnd :: string

section \<open>The conversation normalizer\<close>

fun decimal_nat :: "nat \<Rightarrow> string" where
  "decimal_nat n =
     (if n < 10 then [char_of (48 + n)]
      else decimal_nat (n div 10) @ [char_of (48 + n mod 10)])"

declare decimal_nat.simps [simp del]

definition decimal :: "int \<Rightarrow> string" where
  "decimal i = (if i < 0 then CHR ''-'' # decimal_nat (nat (- i)) else decimal_nat (nat i))"

text \<open>
  \<^verbatim>\<open>message.id || message._id || `${Date.now()}-${Math.random().toString(36).slice(2)}`\<close>
\<close>

definition coalesce_id :: "tick \<Rightarrow> msg \<Rightarrow> ident" where
  "coalesce_id e m =
     (case m_id m of
        Some i \<Rightarrow>
          (if ident_truthy (Some i) then i
           else (case m_oid m of
                   Some j \<Rightarrow> (if ident_truthy (Some j) then j
                              else IdStr (decimal (t_now e) @ ''-'' @ t_rnd e))
                 | None \<Rightarrow> IdStr (decimal (t_now e) @ ''-'' @ t_rnd e)))
      | None \<Rightarrow>
          (case m_oid m of
             Some j \<Rightarrow> (if ident_truthy (Some j) then j
                        else IdStr (decimal (t_now e) @ ''-'' @ t_rnd e))
           | None \<Rightarrow> IdStr (decimal (t_now e) @ ''-'' @ t_rnd e)))"

text \<open>\<^verbatim>\<open>message.createdAt || message.timestamp || new Date().toISOString()\<close>\<close>

definition coalesce_createdAt :: "tick \<Rightarrow> msg \<Rightarrow> int" where
  "coalesce_createdAt e m =
     (case m_createdAt m of
        Some t \<Rightarrow> t
      | None \<Rightarrow> (case m_timestamp m of Some t \<Rightarrow> t | None \<Rightarrow> t_date e))"

text \<open>\<^verbatim>\<open>message.senderType || message.sender\<close>\<close>

definition coalesce_senderType :: "msg \<Rightarrow> party option" where
  "coalesce_senderType m = (if party_truthy (m_senderType m) then m_senderType m else m_sender m)"

text \<open>
  \<^verbatim>\<open>normalizeMessage\<close>: \<open>None\<close> is the falsy argument (\<^verbatim>\<open>null\<close>, \<^verbatim>\<open>undefined\<close>) and the
  \<^verbatim>\<open>null\<close> result. Every other record is spread and its three fields overwritten; there
  is no test of the text.
\<close>

definition normalize_record :: "tick \<Rightarrow> msg \<Rightarrow> msg" where
  "normalize_record e m =
     m\<lparr>m_id := Some (coalesce_id e m),
       m_senderType := coalesce_senderType m,
       m_createdAt := Some (coalesce_createdAt e m)\<rparr>"

definition normalizeMessage :: "tick \<Rightarrow> msg option \<Rightarrow> msg option" where
  "normalizeMessage e message =
     (case message of
        None \<Rightarrow> None
      | Some m \<Rightarrow> Some (normalize_record e m))"

text \<open>
  \<^verbatim>\<open>Array.prototype.sort\<close> with a comparison function. The sort of the language is
  stable; for a consistent comparison function every stable sort returns the same list, and
  this one is insertion from the right.
\<close>

fun insert_by :: "('a \<Rightarrow> 'a \<Rightarrow> int) \<Rightarrow> 'a \<Rightarrow> 'a list \<Rightarrow> 'a list" where
  "insert_by cmp x [] = [x]"
| "insert_by cmp x (y # ys) = (if cmp x y \<le> 0 then x # y # ys else y # insert_by cmp x ys)"

definition array_sort :: "('a \<Rightarrow> 'a \<Rightarrow> int) \<Rightarrow> 'a list \<Rightarrow> 'a list" where
  "array_sort cmp xs = foldr (insert_by cmp) xs []"

text \<open>
  \<^verbatim>\<open>new Date(a.createdAt)\<close> as a number. After \<^verbatim>\<open>normalizeMessage\<close> the field is always
  there (lemma \<open>normalize_record_createdAt\<close>), so the sort never reads the default.
\<close>

definition time_of :: "msg \<Rightarrow> int" where
  "time_of a = (case m_createdAt a of Some t \<Rightarrow> t | None \<Rightarrow> 0)"

definition by_createdAt :: "msg \<Rightarrow> msg \<Rightarrow> int" where
  "by_createdAt a b = time_of a - time_of b"

text \<open>
  \<^verbatim>\<open>arr.map(normalizeMessage).filter(Boolean)\<close>: the call for the element at index \<open>i\<close>
  reads the environment \<open>w i\<close>.
\<close>

fun map_normalize :: "(nat \<Rightarrow> tick) \<Rightarrow> nat \<Rightarrow> msg option list \<Rightarrow> msg option list" where
  "map_normalize w i [] = []"
| "map_normalize w i (r # rs) = normalizeMessage (w i) r # map_normalize w (Suc i) rs"

fun filter_Boolean :: "'a option list \<Rightarrow> 'a list" where
  "filter_Boolean [] = []"
| "filter_Boolean (None # rs) = filter_Boolean rs"
| "filter_Boolean (Some m # rs) = m # filter_Boolean rs"

definition normalizeMessagesArray :: "(nat \<Rightarrow> tick) \<Rightarrow> msg option list \<Rightarrow> msg list" where
  "normalizeMessagesArray w arr = array_sort by_createdAt (filter_Boolean (map_normalize w 0 arr))"

section \<open>Session, local persistence and state\<close>

text \<open>
  The authenticated user of \<^verbatim>\<open>useAuth()\<close>: \<open>u_id\<close> is \<^verbatim>\<open>user.id\<close>, \<open>u_oid\<close> is
  \<^verbatim>\<open>user._id\<close>, \<open>u_messages\<close> is \<^verbatim>\<open>user.messages\<close>, the messages attached to the
  profile, when there are any.
\<close>

record auth_user =
  u_id :: string
  u_oid :: "string option"
  u_name :: string
  u_email :: string
  isAdmin :: bool
  u_messages :: "msg list option"

text \<open>A Known-user entry \<^verbatim>\<open>{id, name, email}\<close>.\<close>

record user_entry =
  ue_id :: string
  ue_name :: string
  ue_email :: string

text \<open>
  \<^verbatim>\<open>localStorage\<close>: the items that hold a JSON array of messages, by their key, and the
  item \<^verbatim>\<open>autocare_message_users\<close>.
\<close>

record local_storage =
  ls_messages :: "string \<rightharpoonup> msg list"
  ls_users :: "user_entry list option"

record state =
  conversations :: "string \<rightharpoonup> msg list"
  usersWithMessages :: "user_entry list"
  loading :: bool
  storage :: local_storage
  console :: "string list"

text \<open>
  What a call of \<^verbatim>\<open>apiService\<close> comes back with: \<^verbatim>\<open>{success: true, ...}\<close>,
  \<^verbatim>\<open>{success: false, message}\<close>, or a rejected promise (the transport failed).
\<close>

datatype 'a response = Success 'a | Failure "string option" | Rejected

definition messages_key :: "string \<Rightarrow> string" where
  "messages_key conversationId = ''autocare_messages_'' @ conversationId"

definition getLocalConversations :: "local_storage \<Rightarrow> (string \<rightharpoonup> msg list)" where
  "getLocalConversations ls = (\<lambda>userId. ls_messages ls (messages_key userId))"

definition saveMessageLocally :: "msg \<Rightarrow> string \<Rightarrow> local_storage \<Rightarrow> local_storage" where
  "saveMessageLocally message conversationId ls =
     (let key = messages_key conversationId;
          existingMessages = (case ls_messages ls key of Some l \<Rightarrow> l | None \<Rightarrow> []);
          newMessages = existingMessages @ [message]
      in ls\<lparr>ls_messages := (ls_messages ls)(key \<mapsto> newMessages)\<rparr>)"

text \<open>The callers drop the list that \<^verbatim>\<open>saveUserToMessageList\<close> returns.\<close>

definition saveUserToMessageList :: "auth_user \<Rightarrow> local_storage \<Rightarrow> local_storage" where
  "saveUserToMessageList user ls =
     (let existingUsers = (case ls_users ls of Some l \<Rightarrow> l | None \<Rightarrow> []);
          userExists = list_ex (\<lambda>u. ue_id u = u_id user) existingUsers
      in if \<not> userExists
         then ls\<lparr>ls_users := Some (existingUsers @
                [\<lparr>ue_id = u_id user, ue_name = u_name user, ue_email = u_email user\<rparr>])\<rparr>
         else ls)"

section \<open>The handler of \<^verbatim>\<open>message-received\<close>\<close>

text \<open>
  The payload of the event: \<open>ev_data\<close> holds the fields that the payload has when it is
  read as a message (\<^verbatim>\<open>data.message || data\<close>); \<^verbatim>\<open>data.sender\<close> is its \<open>m_sender\<close>.
\<close>

record event =
  ev_senderId :: "string option"
  ev_senderName :: "string option"
  ev_message :: "msg option"
  ev_data :: msg

text \<open>\<^verbatim>\<open>data.senderId || (data.sender && data.sender._id)\<close>, \<open>None\<close> when falsy.\<close>

definition event_senderId :: "event \<Rightarrow> string option" where
  "event_senderId d =
     (if str_truthy (ev_senderId d) then ev_senderId d
      else (case m_sender (ev_data d) of
              Some (Populated p) \<Rightarrow> (if p_id p \<noteq> [] then Some (p_id p) else None)
            | Some (Ref s) \<Rightarrow> None
            | None \<Rightarrow> None))"

text \<open>\<^verbatim>\<open>data.senderName || (data.sender && data.sender.name) || 'User'\<close>\<close>

definition event_name :: "event \<Rightarrow> string" where
  "event_name d =
     (case ev_senderName d of
        Some n \<Rightarrow> (if n \<noteq> [] then n
                   else (case m_sender (ev_data d) of
                           Some (Populated p) \<Rightarrow>
                             (case p_name p of Some x \<Rightarrow> (if x \<noteq> [] then x else ''User'')
                              | None \<Rightarrow> ''User'')
                         | Some (Ref s) \<Rightarrow> ''User''
                         | None \<Rightarrow> ''User''))
      | None \<Rightarrow> (case m_sender (ev_data d) of
                   Some (Populated p) \<Rightarrow>
                     (case p_name p of Some x \<Rightarrow> (if x \<noteq> [] then x else ''User'')
                      | None \<Rightarrow> ''User'')
                 | Some (Ref s) \<Rightarrow> ''User''
                 | None \<Rightarrow> ''User''))"

text \<open>\<^verbatim>\<open>(data.sender && data.sender.email) || ''\<close>\<close>

definition event_email :: "event \<Rightarrow> string" where
  "event_email d =
     (case m_sender (ev_data d) of
        Some (Populated p) \<Rightarrow> (case p_email p of Some x \<Rightarrow> x | None \<Rightarrow> [])
      | Some (Ref s) \<Rightarrow> []
      | None \<Rightarrow> [])"

definition event_payload :: "event \<Rightarrow> msg" where
  "event_payload d = (case ev_message d of Some m \<Rightarrow> m | None \<Rightarrow> ev_data d)"

text \<open>The update of the Known-user list, the same in the three revisions.\<close>

definition add_known_user :: "string \<Rightarrow> event \<Rightarrow> user_entry list \<Rightarrow> user_entry list" where
  "add_known_user senderId d prev =
     (if list_ex (\<lambda>u. ue_id u = senderId) prev then prev
      else \<lparr>ue_id = senderId, ue_name = event_name d, ue_email = event_email d\<rparr> # prev)"

text \<open>
  The normalizing revision. \<open>e\<close> is read by the call of \<^verbatim>\<open>normalizeMessage\<close> on the
  payload, \<open>w\<close> by \<^verbatim>\<open>normalizeMessagesArray\<close>.
\<close>

definition handleMessageReceived ::
    "auth_user option \<Rightarrow> tick \<Rightarrow> (nat \<Rightarrow> tick) \<Rightarrow> event \<Rightarrow> state \<Rightarrow> state" where
  "handleMessageReceived user e w d s =
     (case user of
        None \<Rightarrow> s
      | Some u \<Rightarrow>
          if isAdmin u then
            (case event_senderId d of
               None \<Rightarrow> s
             | Some senderId \<Rightarrow>
                 (let prevMessages = (case conversations s senderId of Some l \<Rightarrow> l | None \<Rightarrow> []);
                      incoming = normalizeMessage e (Some (event_payload d))
                  in s\<lparr>conversations := (conversations s)(senderId \<mapsto>
                          normalizeMessagesArray w (map Some prevMessages @ [incoming])),
                        usersWithMessages := add_known_user senderId d (usersWithMessages s)\<rparr>))
          else s)"

text \<open>The plain and the summary-based revision append the payload as it is.\<close>

definition handleMessageReceived_plain :: "auth_user option \<Rightarrow> event \<Rightarrow> state \<Rightarrow> state" where
  "handleMessageReceived_plain user d s =
     (case user of
        None \<Rightarrow> s
      | Some u \<Rightarrow>
          if isAdmin u then
            (case event_senderId d of
               None \<Rightarrow> s
             | Some senderId \<Rightarrow>
                 (let prevMessages = (case conversations s senderId of Some l \<Rightarrow> l | None \<Rightarrow> [])
                  in s\<lparr>conversations := (conversations s)(senderId \<mapsto>
                          prevMessages @ [event_payload d]),
                        usersWithMessages := add_known_user senderId d (usersWithMessages s)\<rparr>))
          else s)"

section \<open>Sending\<close>

text \<open>
  A value used as a property key, after \<^verbatim>\<open>x?._id || x\<close>: a string is its own key,
  \<^verbatim>\<open>undefined\<close> and an object without \<^verbatim>\<open>_id\<close> are coerced to strings.
\<close>

definition party_key :: "party option \<Rightarrow> string" where
  "party_key x =
     (case x of
        None \<Rightarrow> ''undefined''
      | Some (Ref r) \<Rightarrow> r
      | Some (Populated p) \<Rightarrow> (if p_id p \<noteq> [] then p_id p else ''[object Object]''))"

text \<open>
  The message of the \<^verbatim>\<open>catch\<close> blocks:
  \<^verbatim>\<open>{id: Date.now(), senderType: ..., text, createdAt: new Date().toISOString(), pending: true}\<close>
\<close>

definition pending_message :: "tick \<Rightarrow> string \<Rightarrow> string \<Rightarrow> msg" where
  "pending_message e role text =
     empty_msg\<lparr>m_id := Some (IdNum (t_now e)), m_senderType := Some (Ref role),
       m_text := Some text, m_createdAt := Some (t_date e), m_pending := True\<rparr>"

text \<open>
  The environment of one operation: \<open>w k\<close> is read by the \<open>k\<close>-th place of the operation
  that reads the clock or the random source, \<open>w k i\<close> by its call on the element at
  index \<open>i\<close>.

  \<^verbatim>\<open>sendMessage\<close>, normalizing revision. The response is \<open>Success (data, autoReply)\<close>,
  \<open>Failure message\<close> (the \<^verbatim>\<open>else\<close> branch throws into the \<^verbatim>\<open>catch\<close> block) or
  \<open>Rejected\<close>. \<^verbatim>\<open>conversations\<close> is the state that the closure holds.
\<close>

definition sendMessage_catch :: "auth_user \<Rightarrow> (nat \<Rightarrow> nat \<Rightarrow> tick) \<Rightarrow> string \<Rightarrow> state \<Rightarrow> state" where
  "sendMessage_catch u w text s =
     (let newMessage = pending_message (w 4 0) (if isAdmin u then ''admin'' else ''user'') text;
          conversationId = u_id u;
          currentMessages = (case conversations s conversationId of Some l \<Rightarrow> l | None \<Rightarrow> []);
          updatedMessages = normalizeMessagesArray (w 5) (map Some (currentMessages @ [newMessage]));
          ls = saveMessageLocally newMessage conversationId (storage s)
      in s\<lparr>conversations := (conversations s)(conversationId \<mapsto> updatedMessages),
            storage := (if \<not> isAdmin u then saveUserToMessageList u ls else ls),
            console := console s @ [''Failed to send message:'']\<rparr>)"

definition sendMessage_success ::
    "auth_user \<Rightarrow> (nat \<Rightarrow> nat \<Rightarrow> tick) \<Rightarrow> msg \<Rightarrow> msg option \<Rightarrow> state \<Rightarrow> state" where
  "sendMessage_success u w data autoReply s =
     (let sentMessage = normalize_record (w 0 0) data;
          conversationId = (if isAdmin u then party_key (m_recipient sentMessage) else u_id u);
          currentMessages = (case conversations s conversationId of Some l \<Rightarrow> l | None \<Rightarrow> []);
          updatedMessages = normalizeMessagesArray (w 1) (map Some (currentMessages @ [sentMessage]));
          ls = saveMessageLocally sentMessage conversationId (storage s);
          finalMessages =
            (case autoReply of
               None \<Rightarrow> updatedMessages
             | Some r \<Rightarrow> normalizeMessagesArray (w 3)
                          (map Some updatedMessages @ [normalizeMessage (w 2 0) (Some r)]));
          ls2 = (case autoReply of
                   None \<Rightarrow> ls
                 | Some r \<Rightarrow> saveMessageLocally r conversationId ls)
      in s\<lparr>conversations := (conversations s)(conversationId \<mapsto> finalMessages),
            storage := (if \<not> isAdmin u then saveUserToMessageList u ls2 else ls2)\<rparr>)"

definition sendMessage ::
    "auth_user option \<Rightarrow> (msg \<times> msg option) response \<Rightarrow> (nat \<Rightarrow> nat \<Rightarrow> tick) \<Rightarrow> string \<Rightarrow>
     state \<Rightarrow> state" where
  "sendMessage user resp w text s =
     (case user of
        None \<Rightarrow> s
      | Some u \<Rightarrow>
          (case resp of
             Success d \<Rightarrow> sendMessage_success u w (fst d) (snd d) s
           | Failure x \<Rightarrow> sendMessage_catch u w text s
           | Rejected \<Rightarrow> sendMessage_catch u w text s))"

text \<open>\<^verbatim>\<open>sendMessageToUser\<close>, normalizing revision; the response carries \<^verbatim>\<open>data\<close>.\<close>

definition sendMessageToUser_catch ::
    "(nat \<Rightarrow> nat \<Rightarrow> tick) \<Rightarrow> string \<Rightarrow> string \<Rightarrow> state \<Rightarrow> state" where
  "sendMessageToUser_catch w userId text s =
     (let newMessage = pending_message (w 2 0) ''admin'' text;
          userMessages = (case conversations s userId of Some l \<Rightarrow> l | None \<Rightarrow> []);
          updatedMessages = normalizeMessagesArray (w 3) (map Some (userMessages @ [newMessage]))
      in s\<lparr>conversations := (conversations s)(userId \<mapsto> updatedMessages),
            storage := saveMessageLocally newMessage userId (storage s),
            console := console s @ [''Failed to send admin message:'']\<rparr>)"

definition sendMessageToUser ::
    "auth_user option \<Rightarrow> msg response \<Rightarrow> (nat \<Rightarrow> nat \<Rightarrow> tick) \<Rightarrow> string \<Rightarrow> string \<Rightarrow>
     state \<Rightarrow> state" where
  "sendMessageToUser user resp w userId text s =
     (case user of
        None \<Rightarrow> s
      | Some u \<Rightarrow>
          if \<not> isAdmin u then s
          else
            (case resp of
               Success data \<Rightarrow>
                 (let sentMessage = normalize_record (w 0 0) data;
                      userMessages = (case conversations s userId of Some l \<Rightarrow> l | None \<Rightarrow> []);
                      updatedMessages =
                        normalizeMessagesArray (w 1) (map Some (userMessages @ [sentMessage]))
                  in s\<lparr>conversations := (conversations s)(userId \<mapsto> updatedMessages),
                        storage := saveMessageLocally sentMessage userId (storage s)\<rparr>)
             | Failure x \<Rightarrow> sendMessageToUser_catch w userId text s
             | Rejected \<Rightarrow> sendMessageToUser_catch w userId text s))"

text \<open>
  \<^verbatim>\<open>sendMessageToUser\<close> of the summary-based and of the plain revision: the same guard,
  no normalizer, and \<^verbatim>\<open>sender\<close>/\<^verbatim>\<open>timestamp\<close> for the fields of the pending message.
\<close>

definition sendMessageToUser_plain ::
    "auth_user option \<Rightarrow> msg response \<Rightarrow> tick \<Rightarrow> string \<Rightarrow> string \<Rightarrow> state \<Rightarrow> state" where
  "sendMessageToUser_plain user resp e userId text s =
     (case user of
        None \<Rightarrow> s
      | Some u \<Rightarrow>
          if \<not> isAdmin u then s
          else
            (let userMessages = (case conversations s userId of Some l \<Rightarrow> l | None \<Rightarrow> [])
             in case resp of
                  Success sentMessage \<Rightarrow>
                    s\<lparr>conversations := (conversations s)(userId \<mapsto> userMessages @ [sentMessage]),
                      storage := saveMessageLocally sentMessage userId (storage s)\<rparr>
                | _ \<Rightarrow>
                    (let newMessage = empty_msg\<lparr>m_id := Some (IdNum (t_now e)),
                           m_sender := Some (Ref ''admin''), m_text := Some text,
                           m_timestamp := Some (t_date e), m_pending := True\<rparr>
                     in s\<lparr>conversations := (conversations s)(userId \<mapsto> userMessages @ [newMessage]),
                           storage := saveMessageLocally newMessage userId (storage s),
                           console := console s @ [''Failed to send admin message:'']\<rparr>)))"

text \<open>
  \<^verbatim>\<open>sendMessage\<close>, summary-based revision: the sent message and the auto-reply are
  rebuilt field by field and appended; nothing is sorted.
\<close>

definition sent_summary :: "msg \<Rightarrow> msg" where
  "sent_summary raw =
     (let i = (if ident_truthy (m_oid raw) then m_oid raw else m_id raw)
      in empty_msg\<lparr>m_id := i, m_oid := i, m_text := m_text raw,
           m_senderType := m_senderType raw, m_sender := m_senderType raw,
           m_timestamp := (case m_createdAt raw of Some t \<Rightarrow> Some t | None \<Rightarrow> m_timestamp raw)\<rparr>)"

definition autoReply_summary :: "msg \<Rightarrow> msg" where
  "autoReply_summary ar =
     (let i = (if ident_truthy (m_oid ar) then m_oid ar else m_id ar);
          st = (if party_truthy (m_senderType ar) then m_senderType ar else Some (Ref ''admin''))
      in empty_msg\<lparr>m_id := i, m_oid := i, m_text := m_text ar, m_senderType := st, m_sender := st,
           m_timestamp := (case m_createdAt ar of Some t \<Rightarrow> Some t | None \<Rightarrow> m_timestamp ar)\<rparr>)"

text \<open>\<^verbatim>\<open>user.id || user._id\<close> as a property key.\<close>

definition own_key :: "auth_user \<Rightarrow> string" where
  "own_key u =
     (if u_id u \<noteq> [] then u_id u else (case u_oid u of Some x \<Rightarrow> x | None \<Rightarrow> ''undefined''))"

text \<open>\<^verbatim>\<open>raw.recipient || raw.conversation\<close> as a property key.\<close>

definition recipient_key :: "msg \<Rightarrow> string" where
  "recipient_key raw =
     (case m_recipient raw of
        Some (Populated p) \<Rightarrow> ''[object Object]''
      | Some (Ref r) \<Rightarrow>
          (if r \<noteq> [] then r
           else (case m_conversation raw of Some c \<Rightarrow> c | None \<Rightarrow> ''undefined''))
      | None \<Rightarrow> (case m_conversation raw of Some c \<Rightarrow> c | None \<Rightarrow> ''undefined''))"

definition sendMessage_summary ::
    "auth_user option \<Rightarrow> (msg \<times> msg option) response \<Rightarrow> tick \<Rightarrow> string \<Rightarrow> state \<Rightarrow> state" where
  "sendMessage_summary user resp e text s =
     (case user of
        None \<Rightarrow> s
      | Some u \<Rightarrow>
          (case resp of
             Success d \<Rightarrow>
               (let raw = fst d;
                    sentMessage = sent_summary raw;
                    conversationId = (if isAdmin u then recipient_key raw else own_key u);
                    currentMessages =
                      (case conversations s conversationId of Some l \<Rightarrow> l | None \<Rightarrow> []);
                    updatedMessages = currentMessages @ [sentMessage];
                    ls = saveMessageLocally sentMessage conversationId (storage s);
                    finalMessages =
                      (case snd d of
                         None \<Rightarrow> updatedMessages
                       | Some ar \<Rightarrow> updatedMessages @ [autoReply_summary ar]);
                    ls2 = (case snd d of
                             None \<Rightarrow> ls
                           | Some ar \<Rightarrow> saveMessageLocally (autoReply_summary ar) conversationId ls)
                in s\<lparr>conversations := (conversations s)(conversationId \<mapsto> finalMessages),
                      storage := (if \<not> isAdmin u then saveUserToMessageList u ls2 else ls2)\<rparr>)
           | _ \<Rightarrow>
               (let newMessage = empty_msg\<lparr>m_id := Some (IdNum (t_now e)),
                      m_sender := Some (Ref (if isAdmin u then ''admin'' else ''user'')),
                      m_text := Some text, m_timestamp := Some (t_date e), m_pending := True\<rparr>;
                    conversationId = own_key u;
                    currentMessages =
                      (case conversations s conversationId of Some l \<Rightarrow> l | None \<Rightarrow> []);
                    ls = saveMessageLocally newMessage conversationId (storage s)
                in s\<lparr>conversations := (conversations s)(conversationId \<mapsto>
                        currentMessages @ [newMessage]),
                      storage := (if \<not> isAdmin u then saveUserToMessageList u ls else ls),
                      console := console s @ [''Failed to send message:'']\<rparr>)))"

section \<open>Loading, normalizing revision\<close>

record api =
  getAdminAllMessages :: "msg list option response"
  getMessagesForConversation :: "string \<Rightarrow> msg list option response"
  getMessages :: "msg list option response"

text \<open>
  \<^verbatim>\<open>x?._id || x\<close> as the key of a group, \<open>None\<close> when it is falsy. An object without
  \<^verbatim>\<open>_id\<close> is truthy and becomes the key \<^verbatim>\<open>[object Object]\<close>.
\<close>

definition party_id :: "party option \<Rightarrow> string option" where
  "party_id x =
     (case x of
        None \<Rightarrow> None
      | Some (Ref r) \<Rightarrow> (if r \<noteq> [] then Some r else None)
      | Some (Populated p) \<Rightarrow> Some (if p_id p \<noteq> [] then p_id p else ''[object Object]''))"

definition party_name :: "party option \<Rightarrow> string option" where
  "party_name x = (case x of Some (Populated p) \<Rightarrow> p_name p | Some (Ref r) \<Rightarrow> None | None \<Rightarrow> None)"

definition party_email :: "party option \<Rightarrow> string option" where
  "party_email x = (case x of Some (Populated p) \<Rightarrow> p_email p | Some (Ref r) \<Rightarrow> None | None \<Rightarrow> None)"

text \<open>
  \<^verbatim>\<open>m.conversation || (m.senderType === 'user' ? (m.sender?._id || m.sender)
      : (m.recipient?._id || m.recipient))\<close>
\<close>

definition convId :: "msg \<Rightarrow> string option" where
  "convId m =
     (if str_truthy (m_conversation m) then m_conversation m
      else if m_senderType m = Some (Ref ''user'') then party_id (m_sender m)
      else party_id (m_recipient m))"

definition uName :: "msg \<Rightarrow> string" where
  "uName m =
     (case (if m_senderType m = Some (Ref ''user'') then party_name (m_sender m)
            else party_name (m_recipient m)) of
        Some n \<Rightarrow> (if n \<noteq> [] then n else ''User'')
      | None \<Rightarrow> ''User'')"

definition uEmail :: "msg \<Rightarrow> string" where
  "uEmail m =
     (case (if m_senderType m = Some (Ref ''user'') then party_email (m_sender m)
            else party_email (m_recipient m)) of
        Some n \<Rightarrow> n
      | None \<Rightarrow> [])"

text \<open>
  \<^verbatim>\<open>byUser\<close> and the \<^verbatim>\<open>Map\<close> of users as association lists in the order of first
  insertion: \<open>push_message\<close> is \<^verbatim>\<open>if (!byUser[k]) byUser[k] = []; byUser[k].push(m)\<close>,
  \<open>map_set\<close> is \<^verbatim>\<open>users.set(k, v)\<close>.
\<close>

fun push_message :: "string \<Rightarrow> msg \<Rightarrow> (string \<times> msg list) list \<Rightarrow> (string \<times> msg list) list" where
  "push_message k m [] = [(k, [m])]"
| "push_message k m (kv # rest) =
     (if fst kv = k then (k, snd kv @ [m]) # rest else kv # push_message k m rest)"

fun map_set :: "string \<Rightarrow> 'v \<Rightarrow> (string \<times> 'v) list \<Rightarrow> (string \<times> 'v) list" where
  "map_set k v [] = [(k, v)]"
| "map_set k v (kv # rest) = (if fst kv = k then (k, v) # rest else kv # map_set k v rest)"

definition group_step ::
    "(string \<times> msg list) list \<times> (string \<times> user_entry) list \<Rightarrow> msg \<Rightarrow>
     (string \<times> msg list) list \<times> (string \<times> user_entry) list" where
  "group_step acc m =
     (case convId m of
        None \<Rightarrow> acc
      | Some k \<Rightarrow>
          (push_message k m (fst acc),
           map_set k \<lparr>ue_id = k, ue_name = uName m, ue_email = uEmail m\<rparr> (snd acc)))"

text \<open>
  One element of \<^verbatim>\<open>Promise.all(userIds.map(async (uid) => ...))\<close>. The keys of \<^verbatim>\<open>byUser\<close>
  are distinct, so each conversation is fetched once, and the object built from the
  entries does not depend on the order of the keys.
\<close>

definition fetch_entry ::
    "api \<Rightarrow> (string \<Rightarrow> nat \<Rightarrow> tick) \<Rightarrow> (string \<times> msg list) list \<Rightarrow> string \<Rightarrow> string \<times> msg list" where
  "fetch_entry a wl byUser uid =
     (let provisional = (case map_of byUser uid of Some l \<Rightarrow> l | None \<Rightarrow> [])
      in case getMessagesForConversation a uid of
           Success d \<Rightarrow>
             (uid, normalizeMessagesArray (wl uid) (map Some (case d of Some l \<Rightarrow> l | None \<Rightarrow> [])))
         | Failure x \<Rightarrow> (uid, normalizeMessagesArray (wl uid) (map Some provisional))
         | Rejected \<Rightarrow> (uid, normalizeMessagesArray (wl uid) (map Some provisional)))"

definition local_fallback_admin :: "state \<Rightarrow> state" where
  "local_fallback_admin s =
     s\<lparr>conversations := getLocalConversations (storage s),
       usersWithMessages := (case ls_users (storage s) of Some l \<Rightarrow> l | None \<Rightarrow> [])\<rparr>"

definition loadMessages_admin :: "api \<Rightarrow> (string \<Rightarrow> nat \<Rightarrow> tick) \<Rightarrow> state \<Rightarrow> state" where
  "loadMessages_admin a wl s =
     (case getAdminAllMessages a of
        Success d \<Rightarrow>
          (let msgs = (case d of Some l \<Rightarrow> l | None \<Rightarrow> []);
               grouped = foldl group_step ([], []) msgs;
               byUser = fst grouped;
               userIds = map fst byUser;
               conversationsEntries = map (fetch_entry a wl byUser) userIds
           in s\<lparr>conversations := map_of conversationsEntries,
                 usersWithMessages := map snd (snd grouped)\<rparr>)
      | Failure x \<Rightarrow> local_fallback_admin s
      | Rejected \<Rightarrow> local_fallback_admin s)"

definition local_messages :: "auth_user \<Rightarrow> state \<Rightarrow> msg list" where
  "local_messages u s =
     (case ls_messages (storage s) (messages_key (u_id u)) of Some l \<Rightarrow> l | None \<Rightarrow> [])"

definition set_own_conversation :: "auth_user \<Rightarrow> (nat \<Rightarrow> tick) \<Rightarrow> msg list \<Rightarrow> state \<Rightarrow> state" where
  "set_own_conversation u w l s =
     s\<lparr>conversations := [u_id u \<mapsto> normalizeMessagesArray w (map Some l)]\<rparr>"

definition loadMessages_user :: "auth_user \<Rightarrow> api \<Rightarrow> (nat \<Rightarrow> tick) \<Rightarrow> state \<Rightarrow> state" where
  "loadMessages_user u a w s =
     (if (case u_messages u of Some l \<Rightarrow> 0 < length l | None \<Rightarrow> False)
      then set_own_conversation u w (case u_messages u of Some l \<Rightarrow> l | None \<Rightarrow> []) s
      else
        (case getMessages a of
           Success d \<Rightarrow> set_own_conversation u w (case d of Some l \<Rightarrow> l | None \<Rightarrow> []) s
         | Failure x \<Rightarrow> set_own_conversation u w (local_messages u s) s
         | Rejected \<Rightarrow>
             (case u_messages u of
                Some l \<Rightarrow> set_own_conversation u w l s
              | None \<Rightarrow> set_own_conversation u w (local_messages u s) s)
             \<lparr>console := console s @ [''Failed to load messages:'']\<rparr>))"

definition loadMessages :: "auth_user option \<Rightarrow> api \<Rightarrow> (string \<Rightarrow> nat \<Rightarrow> tick) \<Rightarrow> state \<Rightarrow> state" where
  "loadMessages user a wl s =
     (case user of
        None \<Rightarrow> s
      | Some u \<Rightarrow>
          (if isAdmin u then loadMessages_admin a wl s
           else loadMessages_user u a (wl (u_id u)) s)\<lparr>loading := False\<rparr>)"

section \<open>Loading, summary-based revision\<close>

text \<open>
  An element of the summary list: \<open>c_id\<close> is \<^verbatim>\<open>c._id\<close>. The call with index \<open>idx\<close> of
  \<^verbatim>\<open>Promise.allSettled(toFetch.map((u) => apiService.getMessages(u.id)))\<close> settles with
  \<open>getMessagesOf idx u.id\<close>; \<open>Rejected\<close> is the status \<^verbatim>\<open>rejected\<close>.
\<close>

record summary =
  c_id :: string
  c_lastMessage :: "msg option"

record api_summary =
  getConversations :: "summary list option response"
  getMessagesOf :: "nat \<Rightarrow> string \<Rightarrow> msg list option response"
  getOwnMessages :: "msg list option response"

definition summary_user :: "summary \<Rightarrow> user_entry" where
  "summary_user c =
     (let isUserSender =
            (case c_lastMessage c of Some l \<Rightarrow> m_senderType l = Some (Ref ''user'') | None \<Rightarrow> False);
          sender = (case c_lastMessage c of Some l \<Rightarrow> m_sender l | None \<Rightarrow> None);
          recipient = (case c_lastMessage c of Some l \<Rightarrow> m_recipient l | None \<Rightarrow> None);
          name = (case (if isUserSender then party_name sender else party_name recipient) of
                    Some n \<Rightarrow> (if n \<noteq> [] then n else ''User'')
                  | None \<Rightarrow> ''User'');
          email = (case (if isUserSender then party_email sender else party_email recipient) of
                     Some n \<Rightarrow> n
                   | None \<Rightarrow> [])
      in \<lparr>ue_id = c_id c, ue_name = name, ue_email = email\<rparr>)"

text \<open>
  The object literal that this revision builds from a fetched message:
  \<^verbatim>\<open>{id: m._id || m.id, _id: m._id || m.id, text: m.text, senderType: ..., sender: ...,
     timestamp: m.createdAt || m.timestamp}\<close>
\<close>

definition normalized_summary :: "msg \<Rightarrow> msg" where
  "normalized_summary m =
     (let i = (if ident_truthy (m_oid m) then m_oid m else m_id m);
          st = (if party_truthy (m_senderType m) then m_senderType m
                else if m_sender m = Some (Ref ''admin'') \<or> m_sender m = Some (Ref ''user'')
                then m_sender m else None)
      in empty_msg\<lparr>m_id := i, m_oid := i, m_text := m_text m, m_senderType := st, m_sender := st,
           m_timestamp := (case m_createdAt m of Some t \<Rightarrow> Some t | None \<Rightarrow> m_timestamp m)\<rparr>)"

text \<open>The body of \<^verbatim>\<open>results.forEach((res, idx) => ...)\<close>.\<close>

definition fold_result ::
    "api_summary \<Rightarrow> (string \<rightharpoonup> msg list) \<Rightarrow> nat \<times> user_entry \<Rightarrow> (string \<rightharpoonup> msg list)" where
  "fold_result a convMap r =
     (case getMessagesOf a (fst r) (ue_id (snd r)) of
        Success d \<Rightarrow>
          convMap(ue_id (snd r) \<mapsto>
            rev (map normalized_summary (case d of Some l \<Rightarrow> l | None \<Rightarrow> [])))
      | Failure x \<Rightarrow> convMap
      | Rejected \<Rightarrow> convMap)"

definition loadMessages_summary_admin :: "api_summary \<Rightarrow> state \<Rightarrow> state" where
  "loadMessages_summary_admin a s =
     (case getConversations a of
        Success d \<Rightarrow>
          (let summaries = (case d of Some l \<Rightarrow> l | None \<Rightarrow> []);
               usersList = map summary_user summaries;
               toFetch = take 20 usersList;
               convMap = foldl (fold_result a) Map.empty (enumerate 0 toFetch)
           in s\<lparr>usersWithMessages := usersList, conversations := convMap\<rparr>)
      | Failure x \<Rightarrow> s\<lparr>conversations := getLocalConversations (storage s)\<rparr>
      | Rejected \<Rightarrow> s\<lparr>conversations := getLocalConversations (storage s),
                      console := console s @ [''Failed to load messages:'']\<rparr>)"

definition loadMessages_summary_user :: "auth_user \<Rightarrow> api_summary \<Rightarrow> state \<Rightarrow> state" where
  "loadMessages_summary_user u a s =
     (if (case u_messages u of Some l \<Rightarrow> 0 < length l | None \<Rightarrow> False)
      then s\<lparr>conversations :=
             [u_id u \<mapsto> map normalized_summary (case u_messages u of Some l \<Rightarrow> l | None \<Rightarrow> [])]\<rparr>
      else
        (case getOwnMessages a of
           Success d \<Rightarrow>
             s\<lparr>conversations :=
                 [u_id u \<mapsto> rev (map normalized_summary (case d of Some l \<Rightarrow> l | None \<Rightarrow> []))]\<rparr>
         | Failure x \<Rightarrow> s\<lparr>conversations := [u_id u \<mapsto> local_messages u s]\<rparr>
         | Rejected \<Rightarrow>
             s\<lparr>conversations :=
                 [u_id u \<mapsto> (case u_messages u of Some l \<Rightarrow> l | None \<Rightarrow> local_messages u s)],
               console := console s @ [''Failed to load messages:'']\<rparr>))"

definition loadMessages_summary :: "auth_user option \<Rightarrow> api_summary \<Rightarrow> state \<Rightarrow> state" where
  "loadMessages_summary user a s =
     (case user of
        None \<Rightarrow> s
      | Some u \<Rightarrow>
          (if isAdmin u then loadMessages_summary_admin a s
           else loadMessages_summary_user u a s)\<lparr>loading := False\<rparr>)"

section \<open>Predicates of the statements\<close>

text \<open>
  A message is canonical when \<^verbatim>\<open>normalizeMessage\<close> has nothing left to fill in: a truthy
  \<^verbatim>\<open>id\<close>, a \<^verbatim>\<open>createdAt\<close>, and a \<^verbatim>\<open>senderType\<close> that is already
  \<^verbatim>\<open>senderType || sender\<close>.
\<close>

definition canonical :: "msg \<Rightarrow> bool" where
  "canonical m =
     (ident_truthy (m_id m) \<and> m_createdAt m \<noteq> None \<and> coalesce_senderType m = m_senderType m)"

text \<open>
  The malformed record in the words of the specification: an absent record, or one whose
  text is missing or empty.
\<close>

definition spec_malformed :: "msg option \<Rightarrow> bool" where
  "spec_malformed r = (case r of None \<Rightarrow> True | Some m \<Rightarrow> \<not> str_truthy (m_text m))"

text \<open>
  The number of records of a batch that are not malformed in the words of the
  specification.
\<close>

definition spec_well_formed_count :: "msg option list \<Rightarrow> nat" where
  "spec_well_formed_count arr = length (filter (\<lambda>r. \<not> spec_malformed r) arr)"

text \<open>
  The canonical message in the words of the specification (section 4.1): for each logical
  field the newer field name, else the legacy one, else a generated default (for the
  identifier a time-based value with a random suffix, for the timestamp the current time);
  and the batch of the canonical messages of the records that are not absent, in input
  order. The theorems compare them with \<^verbatim>\<open>normalizeMessage\<close> and
  \<^verbatim>\<open>normalizeMessagesArray\<close>.
\<close>

definition spec_canonical :: "tick \<Rightarrow> msg \<Rightarrow> msg" where
  "spec_canonical e m =
     m\<lparr>m_id := (if ident_truthy (m_id m) then m_id m
                else if ident_truthy (m_oid m) then m_oid m
                else Some (IdStr (decimal (t_now e) @ ''-'' @ t_rnd e))),
       m_senderType := (if party_truthy (m_senderType m) then m_senderType m else m_sender m),
       m_createdAt := (if m_createdAt m \<noteq> None then m_createdAt m
                       else if m_timestamp m \<noteq> None then m_timestamp m
                       else Some (t_date e))\<rparr>"

fun spec_batch :: "(nat \<Rightarrow> tick) \<Rightarrow> nat \<Rightarrow> msg option list \<Rightarrow> msg list" where
  "spec_batch w i [] = []"
| "spec_batch w i (None # rs) = spec_batch w (Suc i) rs"
| "spec_batch w i (Some m # rs) = spec_canonical (w i) m # spec_batch w (Suc i) rs"

text \<open>
  \<^verbatim>\<open>conversations[k] || []\<close> and \<^verbatim>\<open>JSON.parse(localStorage.getItem(key) || '[]')\<close>, as
  the statements read them.
\<close>

definition conversation_of :: "state \<Rightarrow> string \<Rightarrow> msg list" where
  "conversation_of s k = (case conversations s k of Some l \<Rightarrow> l | None \<Rightarrow> [])"


text \<open>
  The conversation that \<^verbatim>\<open>sendMessage\<close> writes to on success: the own one of a user, the
  one of the recipient of the stored message for an admin; \<open>conversationId_summary\<close> is
  the summary-based revision's \<^verbatim>\<open>raw.recipient || raw.conversation\<close> and
  \<^verbatim>\<open>user.id || user._id\<close>.
\<close>

definition conversationId_of :: "auth_user \<Rightarrow> msg \<Rightarrow> string" where
  "conversationId_of u data = (if isAdmin u then party_key (m_recipient data) else u_id u)"

definition conversationId_summary :: "auth_user \<Rightarrow> msg \<Rightarrow> string" where
  "conversationId_summary u data = (if isAdmin u then recipient_key data else own_key u)"


text \<open>
  \<^verbatim>\<open>res.status === 'fulfilled' && res.value?.success\<close>, and the Known-user list that the
  summary-based revision builds from \<^verbatim>\<open>response.data || []\<close>.
\<close>

fun is_Success :: "'a response \<Rightarrow> bool" where
  "is_Success (Success d) = True"
| "is_Success (Failure x) = False"
| "is_Success Rejected = False"

definition usersList_of :: "summary list option \<Rightarrow> user_entry list" where
  "usersList_of d = map summary_user (case d of Some l \<Rightarrow> l | None \<Rightarrow> [])"

text \<open>
  A conversation is ordered when every message of it has a \<^verbatim>\<open>createdAt\<close> and these
  timestamps do not decrease.
\<close>

fun created_times :: "msg list \<Rightarrow> int list option" where
  "created_times [] = Some []"
| "created_times (m # ms) =
     (case m_createdAt m of
        None \<Rightarrow> None
      | Some t \<Rightarrow> (case created_times ms of None \<Rightarrow> None | Some ts \<Rightarrow> Some (t # ts)))"

definition ascending :: "msg list \<Rightarrow> bool" where
  "ascending l = (case created_times l of None \<Rightarrow> False | Some ts \<Rightarrow> sorted ts)"

definition ordered :: "state \<Rightarrow> string \<Rightarrow> bool" where
  "ordered s k = ascending (conversation_of s k)"

section \<open>Concrete sessions\<close>

text \<open>Inputs at which the statements below are evaluated.\<close>

definition tick0 :: tick where
  "tick0 = \<lparr>t_date = 1000, t_now = 1000, t_rnd = ''k3x''\<rparr>"

definition clock0 :: "nat \<Rightarrow> tick" where
  "clock0 i = tick0"


definition admin0 :: auth_user where
  "admin0 = \<lparr>u_id = ''a1'', u_oid = None, u_name = ''Ada'', u_email = ''ada@example.org'',
     isAdmin = True, u_messages = None\<rparr>"

definition user0 :: auth_user where
  "user0 = \<lparr>u_id = ''u1'', u_oid = None, u_name = ''Uma'', u_email = ''uma@example.org'',
     isAdmin = False, u_messages = None\<rparr>"

definition state0 :: state where
  "state0 = \<lparr>conversations = Map.empty,
     usersWithMessages = [\<lparr>ue_id = ''u0'', ue_name = ''Old'', ue_email = []\<rparr>],
     loading = False,
     storage = \<lparr>ls_messages = Map.empty, ls_users = None\<rparr>,
     console = []\<rparr>"

definition event0 :: event where
  "event0 = \<lparr>ev_senderId = Some ''u7'', ev_senderName = Some ''Una'', ev_message = None,
     ev_data = empty_msg\<lparr>m_id := Some (IdStr ''m1''), m_text := Some ''hello'',
       m_senderType := Some (Ref ''user''), m_createdAt := Some 5\<rparr>\<rparr>"

text \<open>
  A stored message and two auto-replies: one dated before the message, one dated with it.
\<close>

definition data_a :: msg where
  "data_a = empty_msg\<lparr>m_id := Some (IdStr ''a''), m_text := Some ''Need an oil change'',
     m_senderType := Some (Ref ''user''), m_createdAt := Some 10\<rparr>"



text \<open>
  The scenario of the specification: the all-messages request returns one message of the
  conversation \<^verbatim>\<open>A\<close> and one of \<^verbatim>\<open>B\<close>; the fetch of \<^verbatim>\<open>A\<close> returns three
  messages, newest first, the fetch of \<^verbatim>\<open>B\<close> is rejected.
\<close>

definition msg_A :: msg where
  "msg_A = empty_msg\<lparr>m_oid := Some (IdStr ''s1''), m_text := Some ''hello'',
     m_senderType := Some (Ref ''user''), m_conversation := Some ''A'', m_createdAt := Some 30\<rparr>"

definition msg_B :: msg where
  "msg_B = empty_msg\<lparr>m_oid := Some (IdStr ''s2''), m_text := Some ''my car'',
     m_senderType := Some (Ref ''user''), m_sender := Some (Ref ''B''), m_createdAt := Some 40\<rparr>"

definition fetched_A :: "msg list" where
  "fetched_A =
     [empty_msg\<lparr>m_oid := Some (IdStr ''a3''), m_text := Some ''three'', m_createdAt := Some 30\<rparr>,
      empty_msg\<lparr>m_oid := Some (IdStr ''a1''), m_text := Some ''one'', m_createdAt := Some 10\<rparr>,
      empty_msg\<lparr>m_oid := Some (IdStr ''a2''), m_text := Some ''two'', m_timestamp := Some 20\<rparr>]"

definition api0 :: api where
  "api0 = \<lparr>getAdminAllMessages = Success (Some [msg_A, msg_B]),
     getMessagesForConversation = (\<lambda>uid. if uid = ''A'' then Success (Some fetched_A) else Rejected),
     getMessages = Rejected\<rparr>"

text \<open>
  A summary of twenty-two conversations named \<^verbatim>\<open>c0\<close> to \<^verbatim>\<open>c21\<close>; the fetch with index 2
  is rejected, the others return no data. In \<open>api_22_late\<close> the fetches from index 20 on
  are rejected too.
\<close>

definition api_22 :: api_summary where
  "api_22 = \<lparr>getConversations =
       Success (Some (map (\<lambda>n. \<lparr>c_id = CHR ''c'' # decimal (int n), c_lastMessage = None\<rparr>) [0..<22])),
     getMessagesOf = (\<lambda>idx uid. if idx = 2 then Rejected else Success None),
     getOwnMessages = Rejected\<rparr>"

definition api_22_late :: api_summary where
  "api_22_late = api_22\<lparr>getMessagesOf :=
     (\<lambda>idx uid. if idx = 2 \<or> 20 \<le> idx then Rejected else Success None)\<rparr>"

text \<open>An admin session that holds one message, dated 10, of the sender of \<open>event0\<close>.\<close>

definition state_u7 :: state where
  "state_u7 = state0\<lparr>conversations := [''u7'' \<mapsto> [data_a]]\<rparr>"

text \<open>A record with a text and a record whose text is empty.\<close>

definition text_msg :: msg where
  "text_msg = empty_msg\<lparr>m_id := Some (IdStr ''t1''), m_text := Some ''hello'',
     m_createdAt := Some 1\<rparr>"

definition blank_msg :: msg where
  "blank_msg = empty_msg\<lparr>m_id := Some (IdStr ''t2''), m_text := Some [],
     m_createdAt := Some 2\<rparr>"

text \<open>
  The same scenario for the summary-based revision: the summary lists \<^verbatim>\<open>A\<close> and
  \<^verbatim>\<open>B\<close> with their last messages, the fetch of \<^verbatim>\<open>A\<close> returns three messages and the
  fetch of \<^verbatim>\<open>B\<close> is rejected.
\<close>

definition api_AB :: api_summary where
  "api_AB = \<lparr>getConversations =
       Success (Some [\<lparr>c_id = ''A'', c_lastMessage = Some msg_A\<rparr>,
                      \<lparr>c_id = ''B'', c_lastMessage = Some msg_B\<rparr>]),
     getMessagesOf = (\<lambda>idx uid. if uid = ''A'' then Success (Some fetched_A) else Rejected),
     getOwnMessages = Rejected\<rparr>"

section \<open>Properties of the normalizer\<close>

lemma insert_by_insort_key: "insert_by (\<lambda>a b. f a - f b) x xs = insort_key f x xs"
  by (induction xs) auto

lemma array_sort_sort_key: "array_sort (\<lambda>a b. f a - f b) xs = sort_key f xs"
  by (induction xs) (simp_all add: array_sort_def insert_by_insort_key)

lemma array_sort_by_createdAt: "array_sort by_createdAt xs = sort_key time_of xs"
proof -
  have cmp: "by_createdAt = (\<lambda>a b. time_of a - time_of b)"
    by (rule ext)+ (simp add: by_createdAt_def)
  show ?thesis
    unfolding cmp by (rule array_sort_sort_key)
qed

lemma length_normalized:
  "length (filter_Boolean (map_normalize w i rs)) = length (filter (\<lambda>r. r \<noteq> None) rs)"
proof (induction rs arbitrary: i)
  case Nil
  show ?case by simp
next
  case (Cons r rs)
  show ?case
    by (cases r) (simp_all add: normalizeMessage_def Cons.IH)
qed

lemma normalize_record_createdAt: "m_createdAt (normalize_record e m) = Some (coalesce_createdAt e m)"
  by (simp add: normalize_record_def)

lemma ident_truthy_coalesce_id: "ident_truthy (Some (coalesce_id e m))"
  by (auto simp: coalesce_id_def split: option.splits)

lemma canonical_normalize_record: "canonical (normalize_record e m)"
  by (simp add: canonical_def normalize_record_def ident_truthy_coalesce_id coalesce_senderType_def)

lemma normalize_record_canonical: "canonical m \<Longrightarrow> normalize_record e m = m"
  by (cases "m_id m"; cases "m_createdAt m")
     (auto simp: canonical_def normalize_record_def coalesce_id_def coalesce_createdAt_def)

lemma normalized_append:
  "filter_Boolean (map_normalize w i (rs @ [r]))
     = filter_Boolean (map_normalize w i rs) @ filter_Boolean [normalizeMessage (w (i + length rs)) r]"
proof (induction rs arbitrary: i)
  case Nil show ?case by simp
next
  case (Cons a rs)
  show ?case
    by (cases "normalizeMessage (w i) a") (simp_all add: Cons.IH)
qed

lemma normalized_canonical:
  "list_all canonical xs \<Longrightarrow> filter_Boolean (map_normalize w i (map Some xs)) = xs"
  by (induction xs arbitrary: i) (simp_all add: normalizeMessage_def normalize_record_canonical)

lemma canonical_normalized: "list_all canonical (filter_Boolean (map_normalize w i arr))"
proof (induction arr arbitrary: i)
  case Nil show ?case by simp
next
  case (Cons r rs)
  show ?case
    by (cases r) (simp_all add: normalizeMessage_def canonical_normalize_record Cons.IH)
qed

lemma sorted_normalizeMessagesArray: "sorted (map time_of (normalizeMessagesArray w arr))"
  by (simp add: normalizeMessagesArray_def array_sort_by_createdAt)

lemma mset_normalizeMessagesArray:
  "mset (normalizeMessagesArray w arr) = mset (filter_Boolean (map_normalize w 0 arr))"
  by (simp add: normalizeMessagesArray_def array_sort_by_createdAt)

lemma length_normalizeMessagesArray:
  "length (normalizeMessagesArray w arr) = length (filter (\<lambda>r. r \<noteq> None) arr)"
  by (simp add: normalizeMessagesArray_def array_sort_by_createdAt length_normalized)

lemma stable_normalizeMessagesArray:
  "filter (\<lambda>m. time_of m = t) (normalizeMessagesArray w arr)
     = filter (\<lambda>m. time_of m = t) (filter_Boolean (map_normalize w 0 arr))"
  by (simp add: normalizeMessagesArray_def array_sort_by_createdAt sort_key_stable)

lemma canonical_normalizeMessagesArray: "list_all canonical (normalizeMessagesArray w arr)"
proof -
  have "set (normalizeMessagesArray w arr) = set (filter_Boolean (map_normalize w 0 arr))"
    using mset_normalizeMessagesArray [of w arr] by (metis set_mset_mset)
  then show ?thesis
    using canonical_normalized [of w 0 arr] by (simp add: list_all_iff)
qed

lemma spec_canonical_normalize_record: "spec_canonical e m = normalize_record e m"
  by (cases "m_id m"; cases "m_oid m"; cases "m_createdAt m"; cases "m_timestamp m")
     (simp_all add: spec_canonical_def normalize_record_def coalesce_id_def
       coalesce_senderType_def coalesce_createdAt_def)

lemma spec_batch_normalized: "spec_batch w i arr = filter_Boolean (map_normalize w i arr)"
  by (induction w i arr rule: spec_batch.induct)
     (simp_all add: normalizeMessage_def spec_canonical_normalize_record)

lemma createdAt_time_of: "canonical m \<Longrightarrow> m_createdAt m = Some (time_of m)"
  by (cases "m_createdAt m") (simp_all add: canonical_def time_of_def)

lemma createdAt_map_time_of:
  "list_all canonical l \<Longrightarrow> map m_createdAt l = map Some (map time_of l)"
  by (induction l) (simp_all add: createdAt_time_of)

lemma filter_createdAt_time_of:
  "list_all canonical l \<Longrightarrow>
     filter (\<lambda>m. m_createdAt m = Some t) l = filter (\<lambda>m. time_of m = t) l"
  by (induction l) (auto simp: createdAt_time_of)

text \<open>
  Claim C1, as stated, fails: of the two records of this batch one is malformed in the
  words of the specification (its text is empty), and the batch returns two messages.
\<close>

theorem batch_keeps_empty_text_record:
  "spec_malformed (Some blank_msg)
   \<and> spec_well_formed_count [Some text_msg, Some blank_msg] = 1
   \<and> length (normalizeMessagesArray clock0 [Some text_msg, Some blank_msg]) = 2"
  by (simp add: spec_well_formed_count_def spec_malformed_def text_msg_def blank_msg_def
      empty_msg_def normalizeMessagesArray_def array_sort_def normalizeMessage_def)

text \<open>
  Claim C1, amended. Batch normalization returns one canonical message for every input
  record that is not absent, whatever its text: the result has as many elements as the
  input has such records and is a permutation of their canonical messages; its timestamps
  ascend; and the messages of any one timestamp stand in their input order.
\<close>

theorem normalizeMessagesArray_one_per_record_sorted_stable:
  "length (normalizeMessagesArray w arr) = length (filter (\<lambda>r. r \<noteq> None) arr)
   \<and> mset (normalizeMessagesArray w arr) = mset (spec_batch w 0 arr)
   \<and> (\<exists>ts. map m_createdAt (normalizeMessagesArray w arr) = map Some ts \<and> sorted ts)
   \<and> filter (\<lambda>m. m_createdAt m = Some t) (normalizeMessagesArray w arr)
       = filter (\<lambda>m. m_createdAt m = Some t) (spec_batch w 0 arr)"
proof -
  let ?out = "normalizeMessagesArray w arr"
  have c: "list_all canonical ?out" by (rule canonical_normalizeMessagesArray)
  have cb: "list_all canonical (spec_batch w 0 arr)"
    unfolding spec_batch_normalized by (rule canonical_normalized)
  have 1: "length ?out = length (filter (\<lambda>r. r \<noteq> None) arr)"
    by (rule length_normalizeMessagesArray)
  have 2: "mset ?out = mset (spec_batch w 0 arr)"
    unfolding spec_batch_normalized by (rule mset_normalizeMessagesArray)
  have "map m_createdAt ?out = map Some (map time_of ?out) \<and> sorted (map time_of ?out)"
    using createdAt_map_time_of [OF c] sorted_normalizeMessagesArray [of w arr] by simp
  then have 3: "\<exists>ts. map m_createdAt ?out = map Some ts \<and> sorted ts" by blast
  have 4: "filter (\<lambda>m. m_createdAt m = Some t) ?out
       = filter (\<lambda>m. m_createdAt m = Some t) (spec_batch w 0 arr)"
    using filter_createdAt_time_of [OF c, of t] filter_createdAt_time_of [OF cb, of t]
      stable_normalizeMessagesArray [of t w arr]
    by (simp add: spec_batch_normalized)
  from 1 2 3 4 show ?thesis by blast
qed

text \<open>
  Claim C7, as stated, fails: a record without text is malformed in the words of the
  specification, yet \<^verbatim>\<open>normalizeMessage\<close> returns a message for it and the batch keeps it.
\<close>

theorem normalizeMessage_keeps_empty_text:
  "spec_malformed (Some empty_msg)
   \<and> normalizeMessage tick0 (Some empty_msg) \<noteq> None
   \<and> length (normalizeMessagesArray clock0 [Some empty_msg]) = 1"
  by (simp add: spec_malformed_def empty_msg_def normalizeMessage_def normalizeMessagesArray_def
      array_sort_def)

text \<open>
  Claim C7, amended. The normalizer is total (it has no failing branch); it returns no
  message exactly for the absent record; the text of a record is copied whatever it is;
  and the batch drops the absent records only.
\<close>

theorem normalizeMessage_drops_only_absent:
  "(normalizeMessage e r = None) = (r = None)
   \<and> map_option m_text (normalizeMessage e (Some m)) = Some (m_text m)
   \<and> length (normalizeMessagesArray w arr) = length (filter (\<lambda>r. r \<noteq> None) arr)"
  by (cases r) (simp_all add: normalizeMessage_def normalize_record_def length_normalizeMessagesArray)

section \<open>The Known-user list\<close>

text \<open>
  Claim C6. In an admin session, the first \<^verbatim>\<open>message-received\<close> event of a sender who
  is not in the Known-user list puts one entry for that sender at the front of the list,
  and a second event of the same sender leaves the list as it is. The three revisions
  share this code.
\<close>

theorem known_user_added_once_at_front:
  assumes "isAdmin u" and "event_senderId d1 = Some k" and "event_senderId d2 = Some k"
    and "\<not> list_ex (\<lambda>x. ue_id x = k) (usersWithMessages s)"
  shows "usersWithMessages (handleMessageReceived (Some u) e1 w1 d1 s)
           = \<lparr>ue_id = k, ue_name = event_name d1, ue_email = event_email d1\<rparr> # usersWithMessages s
       \<and> usersWithMessages (handleMessageReceived (Some u) e2 w2 d2
             (handleMessageReceived (Some u) e1 w1 d1 s))
           = usersWithMessages (handleMessageReceived (Some u) e1 w1 d1 s)
       \<and> usersWithMessages (handleMessageReceived_plain (Some u) d1 s)
           = \<lparr>ue_id = k, ue_name = event_name d1, ue_email = event_email d1\<rparr> # usersWithMessages s
       \<and> usersWithMessages (handleMessageReceived_plain (Some u) d2
             (handleMessageReceived_plain (Some u) d1 s))
           = usersWithMessages (handleMessageReceived_plain (Some u) d1 s)"
  using assms
  by (simp add: handleMessageReceived_def handleMessageReceived_plain_def Let_def
      add_known_user_def)

text \<open>The two events at a concrete session.\<close>

theorem known_user_added_once_witness:
  "usersWithMessages (handleMessageReceived (Some admin0) tick0 (\<lambda>i. tick0) event0
       (handleMessageReceived (Some admin0) tick0 (\<lambda>i. tick0) event0 state0))
     = [\<lparr>ue_id = ''u7'', ue_name = ''Una'', ue_email = []\<rparr>,
        \<lparr>ue_id = ''u0'', ue_name = ''Old'', ue_email = []\<rparr>]"
proof -
  have a: "isAdmin admin0" by (simp add: admin0_def)
  have k: "event_senderId event0 = Some ''u7''" by (simp add: event_senderId_def event0_def)
  have n: "\<not> list_ex (\<lambda>x. ue_id x = ''u7'') (usersWithMessages state0)"
    by (simp add: state0_def)
  have nm: "event_name event0 = ''Una''" by (simp add: event_name_def event0_def)
  have em: "event_email event0 = []" by (simp add: event_email_def event0_def empty_msg_def)
  show ?thesis
    using known_user_added_once_at_front [OF a k k n, of tick0 "\<lambda>i. tick0" tick0 "\<lambda>i. tick0"]
    by (simp add: nm em state0_def)
qed

section \<open>The guard of \<^verbatim>\<open>sendMessageToUser\<close>\<close>

text \<open>
  Claim C10. Without an authenticated user, or with one who is no admin,
  \<^verbatim>\<open>sendMessageToUser\<close> returns the state it was given: conversations, Known-user
  list, local persistence, loading flag and console are the same. This holds in every
  revision.
\<close>

theorem sendMessageToUser_guard:
  assumes "(case user of None \<Rightarrow> True | Some u \<Rightarrow> \<not> isAdmin u)"
  shows "sendMessageToUser user resp w userId text s = s
       \<and> sendMessageToUser_plain user resp e userId text s = s"
  using assms
  by (cases user) (simp_all add: sendMessageToUser_def sendMessageToUser_plain_def)

text \<open>A user who is no admin, and no user at all.\<close>

theorem sendMessageToUser_guard_witness:
  "sendMessageToUser (Some user0) Rejected (\<lambda>k i. tick0) ''u7'' ''hello'' state0 = state0
   \<and> sendMessageToUser None Rejected (\<lambda>k i. tick0) ''u7'' ''hello'' state0 = state0"
proof -
  have a: "(case Some user0 of None \<Rightarrow> True | Some u \<Rightarrow> \<not> isAdmin u)" by (simp add: user0_def)
  have b: "(case None :: auth_user option of None \<Rightarrow> True | Some u \<Rightarrow> \<not> isAdmin u)" by simp
  show ?thesis
    using sendMessageToUser_guard [OF a] sendMessageToUser_guard [OF b] by simp
qed

section \<open>Inserting into a conversation\<close>

lemma length_normalize_snoc:
  "length (normalizeMessagesArray w (map Some xs @ [Some x])) = Suc (length xs)"
  by (simp add: length_normalizeMessagesArray)

lemma mset_normalize_snoc:
  assumes "canonical x"
  shows "mset (normalizeMessagesArray w (map Some xs @ [Some x]))
           = add_mset x (mset (filter_Boolean (map_normalize w 0 (map Some xs))))"
  using assms
  by (simp add: mset_normalizeMessagesArray normalized_append normalizeMessage_def
      normalize_record_canonical)

lemma mset_normalize_snoc_canonical:
  assumes "canonical x" and "list_all canonical xs"
  shows "mset (normalizeMessagesArray w (map Some xs @ [Some x])) = add_mset x (mset xs)"
  using assms by (simp add: mset_normalize_snoc normalized_canonical)

lemma member_normalize_snoc:
  assumes "canonical x"
  shows "x \<in> set (normalizeMessagesArray w (map Some xs @ [Some x]))"
proof -
  have "x \<in># mset (normalizeMessagesArray w (map Some xs @ [Some x]))"
    by (simp add: mset_normalize_snoc [OF assms])
  then show ?thesis by simp
qed

text \<open>
  Claim C4, as stated, fails: the event with the identifier \<^verbatim>\<open>m1\<close>, delivered twice to
  an admin session, leaves two records with that identifier in the conversation of its
  sender.
\<close>

theorem redelivered_event_kept_twice:
  "map m_id (conversation_of
       (handleMessageReceived (Some admin0) tick0 clock0 event0
          (handleMessageReceived (Some admin0) tick0 clock0 event0 state0)) ''u7'')
     = [Some (IdStr ''m1''), Some (IdStr ''m1'')]
   \<and> \<not> distinct (map m_id (conversation_of
       (handleMessageReceived (Some admin0) tick0 clock0 event0
          (handleMessageReceived (Some admin0) tick0 clock0 event0 state0)) ''u7''))"
  by (simp add: handleMessageReceived_def admin0_def event0_def state0_def event_senderId_def
      event_payload_def normalizeMessagesArray_def array_sort_def normalizeMessage_def
      normalize_record_def coalesce_id_def coalesce_createdAt_def coalesce_senderType_def
      by_createdAt_def time_of_def empty_msg_def add_known_user_def conversation_of_def)

text \<open>
  Claim C4, amended. Nothing compares identifiers on insert. In an admin session the handler
  adds the normalized payload to the conversation of the sender whatever identifiers are
  already there: the conversation grows by one, the new record is in it, and when the
  earlier records are canonical they are all kept. The plain and the summary-based revision
  append the payload at the end.
\<close>

theorem handleMessageReceived_adds_beside:
  assumes "isAdmin u" and "event_senderId d = Some k"
  shows "(\<exists>new. conversations (handleMessageReceived (Some u) e w d s)
                  = (conversations s)(k \<mapsto> new)
            \<and> length new = Suc (length (case conversations s k of Some l \<Rightarrow> l | None \<Rightarrow> []))
            \<and> normalize_record e (event_payload d) \<in> set new
            \<and> (list_all canonical (case conversations s k of Some l \<Rightarrow> l | None \<Rightarrow> []) \<longrightarrow>
                 mset new = add_mset (normalize_record e (event_payload d))
                   (mset (case conversations s k of Some l \<Rightarrow> l | None \<Rightarrow> []))))
       \<and> conversations (handleMessageReceived_plain (Some u) d s)
           = (conversations s)(k \<mapsto>
               (case conversations s k of Some l \<Rightarrow> l | None \<Rightarrow> []) @ [event_payload d])"
proof -
  let ?prev = "case conversations s k of Some l \<Rightarrow> l | None \<Rightarrow> []"
  let ?x = "normalize_record e (event_payload d)"
  let ?new = "normalizeMessagesArray w (map Some ?prev @ [Some ?x])"
  have c: "canonical ?x" by (rule canonical_normalize_record)
  have 1: "conversations (handleMessageReceived (Some u) e w d s) = (conversations s)(k \<mapsto> ?new)"
    using assms by (simp add: handleMessageReceived_def normalizeMessage_def)
  have 2: "length ?new = Suc (length ?prev)" by (rule length_normalize_snoc)
  have 3: "?x \<in> set ?new" by (rule member_normalize_snoc [OF c])
  have 4: "list_all canonical ?prev \<longrightarrow> mset ?new = add_mset ?x (mset ?prev)"
    by (simp add: mset_normalize_snoc_canonical [OF c])
  have 5: "conversations (handleMessageReceived_plain (Some u) d s)
           = (conversations s)(k \<mapsto> ?prev @ [event_payload d])"
    using assms by (simp add: handleMessageReceived_plain_def)
  from 1 2 3 4 5 show ?thesis by blast
qed

text \<open>The first event of a sender at a concrete session.\<close>

theorem handleMessageReceived_adds_beside_witness:
  "\<exists>new. conversations (handleMessageReceived (Some admin0) tick0 (\<lambda>i. tick0) event0 state0)
            = (conversations state0)(''u7'' \<mapsto> new)
        \<and> length new = 1
        \<and> mset new = {#normalize_record tick0 (event_payload event0)#}"
proof -
  have a: "isAdmin admin0" by (simp add: admin0_def)
  have k: "event_senderId event0 = Some ''u7''" by (simp add: event_senderId_def event0_def)
  have p: "(case conversations state0 ''u7'' of Some l \<Rightarrow> l | None \<Rightarrow> []) = []"
    by (simp add: state0_def)
  show ?thesis
    using handleMessageReceived_adds_beside [OF a k, of tick0 "\<lambda>i. tick0" state0]
    unfolding p by auto
qed

section \<open>Sending while the backend fails\<close>






section \<open>Sending while the backend answers\<close>









lemma conversations_sendMessage_success:
  "conversations (sendMessage (Some u) (Success (data, ar)) w text s)
     = (conversations s)((conversationId_of u data) \<mapsto>
         (case ar of
            None \<Rightarrow>
              normalizeMessagesArray (w 1)
                (map Some (conversation_of s (conversationId_of u data))
                   @ [Some (normalize_record (w 0 0) data)])
          | Some r \<Rightarrow>
              normalizeMessagesArray (w 3)
                (map Some (normalizeMessagesArray (w 1)
                   (map Some (conversation_of s (conversationId_of u data))
                      @ [Some (normalize_record (w 0 0) data)]))
                 @ [Some (normalize_record (w 2 0) r)])))"
  by (cases ar)
     (simp_all add: sendMessage_def sendMessage_success_def Let_def conversation_of_def
       normalizeMessage_def normalize_record_def conversationId_of_def)





section \<open>Loading as an admin, normalizing revision\<close>

lemma map_of_push_message:
  "map_of (push_message k m al)
     = (map_of al)(k \<mapsto> (case map_of al k of Some l \<Rightarrow> l | None \<Rightarrow> []) @ [m])"
  by (induction al) (auto simp: fun_eq_iff)

lemma fst_group_step:
  "map_of (fst (group_step acc m)) uid
     = (if convId m = Some uid
        then Some ((case map_of (fst acc) uid of Some l \<Rightarrow> l | None \<Rightarrow> []) @ [m])
        else map_of (fst acc) uid)"
  by (cases "convId m") (simp_all add: group_step_def map_of_push_message)

lemma map_of_grouped:
  "map_of (fst (foldl group_step acc msgs)) uid
     = (if filter (\<lambda>m. convId m = Some uid) msgs = [] then map_of (fst acc) uid
        else Some ((case map_of (fst acc) uid of Some l \<Rightarrow> l | None \<Rightarrow> [])
                    @ filter (\<lambda>m. convId m = Some uid) msgs))"
proof (induction msgs arbitrary: acc)
  case Nil
  show ?case by simp
next
  case (Cons m msgs)
  show ?case
    by (simp add: Cons.IH fst_group_step)
qed

lemma map_of_byUser:
  "map_of (fst (foldl group_step ([], []) msgs)) uid
     = (if filter (\<lambda>m. convId m = Some uid) msgs = [] then None
        else Some (filter (\<lambda>m. convId m = Some uid) msgs))"
  by (simp add: map_of_grouped)

lemma keys_byUser:
  "(uid \<in> set (map fst (fst (foldl group_step ([], []) msgs))))
     = (filter (\<lambda>m. convId m = Some uid) msgs \<noteq> [])"
proof -
  have "(uid \<in> set (map fst (fst (foldl group_step ([], []) msgs))))
          = (map_of (fst (foldl group_step ([], []) msgs)) uid \<noteq> None)"
    by (metis map_of_eq_None_iff set_map)
  then show ?thesis by (simp add: map_of_byUser)
qed

lemma fst_fetch_entry: "fst (fetch_entry a wl byUser uid) = uid"
  by (simp add: fetch_entry_def Let_def split: response.splits)

lemma map_of_entries:
  "map_of (map (fetch_entry a wl byUser) ks) uid
     = (if uid \<in> set ks then Some (snd (fetch_entry a wl byUser uid)) else None)"
proof (induction ks)
  case Nil show ?case by simp
next
  case (Cons k ks)
  show ?case
    using fst_fetch_entry [of a wl byUser k]
    by (cases "fetch_entry a wl byUser k") (auto simp: Cons.IH)
qed

lemma snd_fetch_entry:
  "snd (fetch_entry a wl (fst (foldl group_step ([], []) msgs)) uid)
     = (case getMessagesForConversation a uid of
               Success d \<Rightarrow>
                 normalizeMessagesArray (wl uid) (map Some (case d of Some l \<Rightarrow> l | None \<Rightarrow> []))
             | Failure x \<Rightarrow>
                 normalizeMessagesArray (wl uid) (map Some (filter (\<lambda>m. convId m = Some uid) msgs))
             | Rejected \<Rightarrow>
                 normalizeMessagesArray (wl uid) (map Some (filter (\<lambda>m. convId m = Some uid) msgs)))"
  by (cases "getMessagesForConversation a uid")
     (simp_all add: fetch_entry_def Let_def map_of_byUser)

lemma conversations_loadMessages_admin_entries:
  assumes "isAdmin u" and "getAdminAllMessages a = Success d"
  shows "conversations (loadMessages (Some u) a wl s)
     = map_of (map (fetch_entry a wl (fst (foldl group_step ([], [])
                 (case d of Some l \<Rightarrow> l | None \<Rightarrow> []))))
         (map fst (fst (foldl group_step ([], []) (case d of Some l \<Rightarrow> l | None \<Rightarrow> [])))))"
  using assms
  by (simp add: loadMessages_def loadMessages_admin_def Let_def del: map_map)

lemma conversations_loadMessages_admin:
  assumes "isAdmin u" and "getAdminAllMessages a = Success d"
  shows "conversations (loadMessages (Some u) a wl s) uid
     = (if filter (\<lambda>m. convId m = Some uid) (case d of Some l \<Rightarrow> l | None \<Rightarrow> []) = [] then None
        else Some (case getMessagesForConversation a uid of
               Success r \<Rightarrow>
                 normalizeMessagesArray (wl uid) (map Some (case r of Some l \<Rightarrow> l | None \<Rightarrow> []))
             | Failure x \<Rightarrow>
                 normalizeMessagesArray (wl uid) (map Some (filter (\<lambda>m. convId m = Some uid)
                   (case d of Some l \<Rightarrow> l | None \<Rightarrow> [])))
             | Rejected \<Rightarrow>
                 normalizeMessagesArray (wl uid) (map Some (filter (\<lambda>m. convId m = Some uid)
                   (case d of Some l \<Rightarrow> l | None \<Rightarrow> [])))))"
  unfolding conversations_loadMessages_admin_entries [OF assms] map_of_entries keys_byUser
    snd_fetch_entry
  by simp

section \<open>Loading as an admin, summary-based revision\<close>

lemma dom_fold_result:
  "dom (fold_result a cm r)
     = dom cm \<union> (if is_Success (getMessagesOf a (fst r) (ue_id (snd r))) then {ue_id (snd r)} else {})"
  by (cases "getMessagesOf a (fst r) (ue_id (snd r))") (simp_all add: fold_result_def)

lemma dom_foldl_fold_result:
  "dom (foldl (fold_result a) cm l)
     = dom cm \<union> set (map (\<lambda>r. ue_id (snd r))
         (filter (\<lambda>r. is_Success (getMessagesOf a (fst r) (ue_id (snd r)))) l))"
proof (induction l arbitrary: cm)
  case Nil
  show ?case by simp
next
  case (Cons r l)
  show ?case
    by (simp add: Cons.IH dom_fold_result Un_assoc)
qed

lemma foldl_fold_result_cong:
  assumes "\<And>r. r \<in> set l \<Longrightarrow> getMessagesOf a' (fst r) = getMessagesOf a (fst r)"
  shows "foldl (fold_result a') cm l = foldl (fold_result a) cm l"
  using assms
proof (induction l arbitrary: cm)
  case Nil
  show ?case by simp
next
  case (Cons r l)
  have "fold_result a' cm r = fold_result a cm r"
    using Cons.prems [of r] by (simp add: fold_result_def)
  then show ?case
    using Cons.IH Cons.prems by simp
qed

lemma conversations_loadMessages_summary:
  assumes "isAdmin u" and "getConversations a = Success d"
  shows "conversations (loadMessages_summary (Some u) a s)
     = foldl (fold_result a) Map.empty (enumerate 0 (take 20 (usersList_of d)))"
  using assms
  by (simp add: loadMessages_summary_def loadMessages_summary_admin_def Let_def usersList_of_def)

lemma dom_conversations_summary:
  assumes "isAdmin u" and "getConversations a = Success d"
  shows "dom (conversations (loadMessages_summary (Some u) a s))
     = {ue_id (usersList_of d ! i) | i. i < length (usersList_of d) \<and> i < 20
          \<and> is_Success (getMessagesOf a i (ue_id (usersList_of d ! i)))}"
    (is "?L = ?R")
proof
  show "?L \<subseteq> ?R"
  proof
    fix k assume "k \<in> ?L"
    then obtain r where r: "r \<in> set (enumerate 0 (take 20 (usersList_of d)))"
      and s: "is_Success (getMessagesOf a (fst r) (ue_id (snd r)))" and k: "k = ue_id (snd r)"
      unfolding conversations_loadMessages_summary [OF assms] dom_foldl_fold_result by auto
    from r have "fst r < length (usersList_of d)" "fst r < 20"
      "snd r = usersList_of d ! fst r"
      by (auto simp: in_set_enumerate_eq)
    with s k show "k \<in> ?R" by auto
  qed
next
  show "?R \<subseteq> ?L"
  proof
    fix k assume "k \<in> ?R"
    then obtain i where i: "i < length (usersList_of d)" "i < 20"
      and s: "is_Success (getMessagesOf a i (ue_id (usersList_of d ! i)))"
      and k: "k = ue_id (usersList_of d ! i)" by auto
    have "(i, usersList_of d ! i) \<in> set (enumerate 0 (take 20 (usersList_of d)))"
      using i by (simp add: in_set_enumerate_eq)
    then have "k \<in> (\<lambda>r. ue_id (snd r)) `
        {r \<in> set (enumerate 0 (take 20 (usersList_of d))).
           is_Success (getMessagesOf a (fst r) (ue_id (snd r)))}"
      using s k by force
    then show "k \<in> ?L"
      unfolding conversations_loadMessages_summary [OF assms] dom_foldl_fold_result by simp
  qed
qed

text \<open>
  Claim C9. In the summary-based revision the Known-user list holds every user of the
  summary, and the conversations are those of the users among the first twenty whose fetch
  succeeded, and no others. When the identifiers of the summary are distinct, the
  conversation of a user beyond the twentieth, and of a user whose fetch failed, is
  absent. The fetches with an index of twenty or more are never consulted: two backends
  that agree on the summary and on the first twenty fetches give the same conversations.
\<close>

theorem summary_load_first_twenty:
  assumes "isAdmin u" and "getConversations a = Success d"
  shows "usersWithMessages (loadMessages_summary (Some u) a s) = usersList_of d
       \<and> dom (conversations (loadMessages_summary (Some u) a s))
           = {ue_id (usersList_of d ! i) | i. i < length (usersList_of d) \<and> i < 20
                \<and> is_Success (getMessagesOf a i (ue_id (usersList_of d ! i)))}
       \<and> (distinct (map ue_id (usersList_of d)) \<longrightarrow>
            (\<forall>i < length (usersList_of d).
               20 \<le> i \<or> \<not> is_Success (getMessagesOf a i (ue_id (usersList_of d ! i))) \<longrightarrow>
               conversations (loadMessages_summary (Some u) a s) (ue_id (usersList_of d ! i)) = None))
       \<and> (getConversations a' = getConversations a
              \<and> (\<forall>i < 20. getMessagesOf a' i = getMessagesOf a i) \<longrightarrow>
            conversations (loadMessages_summary (Some u) a' s)
              = conversations (loadMessages_summary (Some u) a s))"
proof -
  let ?us = "usersList_of d"
  let ?s' = "loadMessages_summary (Some u) a s"
  have 1: "usersWithMessages ?s' = ?us"
    using assms
    by (simp add: loadMessages_summary_def loadMessages_summary_admin_def Let_def usersList_of_def)
  note 2 = dom_conversations_summary [OF assms, of s]
  have 3: "distinct (map ue_id ?us) \<longrightarrow>
            (\<forall>i < length ?us.
               20 \<le> i \<or> \<not> is_Success (getMessagesOf a i (ue_id (?us ! i))) \<longrightarrow>
               conversations ?s' (ue_id (?us ! i)) = None)"
  proof (intro impI allI)
    fix i
    assume dist: "distinct (map ue_id ?us)" and i: "i < length ?us"
      and no: "20 \<le> i \<or> \<not> is_Success (getMessagesOf a i (ue_id (?us ! i)))"
    show "conversations ?s' (ue_id (?us ! i)) = None"
    proof (rule ccontr)
      assume "conversations ?s' (ue_id (?us ! i)) \<noteq> None"
      then have "ue_id (?us ! i) \<in> dom (conversations ?s')" by (simp add: dom_def)
      then obtain j where j: "j < length ?us" "j < 20"
        and sj: "is_Success (getMessagesOf a j (ue_id (?us ! j)))"
        and e: "ue_id (?us ! i) = ue_id (?us ! j)"
        unfolding 2 by auto
      from e i j(1) have "map ue_id ?us ! i = map ue_id ?us ! j" by simp
      moreover have "i < length (map ue_id ?us)" "j < length (map ue_id ?us)"
        using i j(1) by simp_all
      ultimately have "i = j"
        using dist nth_eq_iff_index_eq [of "map ue_id ?us" i j] by blast
      with no j(2) sj show False by simp
    qed
  qed
  have 4: "getConversations a' = getConversations a
              \<and> (\<forall>i < 20. getMessagesOf a' i = getMessagesOf a i) \<longrightarrow>
            conversations (loadMessages_summary (Some u) a' s) = conversations ?s'"
  proof
    assume h: "getConversations a' = getConversations a
              \<and> (\<forall>i < 20. getMessagesOf a' i = getMessagesOf a i)"
    then have g: "getConversations a' = Success d" using assms(2) by simp
    have "foldl (fold_result a') Map.empty (enumerate 0 (take 20 ?us))
            = foldl (fold_result a) Map.empty (enumerate 0 (take 20 ?us))"
    proof (rule foldl_fold_result_cong)
      fix r assume "r \<in> set (enumerate 0 (take 20 ?us))"
      then have "fst r < 20" by (auto simp: in_set_enumerate_eq)
      with h show "getMessagesOf a' (fst r) = getMessagesOf a (fst r)" by simp
    qed
    then show "conversations (loadMessages_summary (Some u) a' s) = conversations ?s'"
      by (simp add: conversations_loadMessages_summary [OF assms]
          conversations_loadMessages_summary [OF assms(1) g])
  qed
  from 1 2 3 4 show ?thesis by blast
qed


text \<open>Twenty-two conversations, with the third fetch rejected.\<close>

theorem summary_load_witness:
  "conversations (loadMessages_summary (Some admin0) api_22 state0) ''c21'' = None
   \<and> conversations (loadMessages_summary (Some admin0) api_22 state0) ''c2'' = None
   \<and> ''c0'' \<in> dom (conversations (loadMessages_summary (Some admin0) api_22 state0))
   \<and> length (usersWithMessages (loadMessages_summary (Some admin0) api_22 state0)) = 22
   \<and> conversations (loadMessages_summary (Some admin0) api_22_late state0)
       = conversations (loadMessages_summary (Some admin0) api_22 state0)"
proof -
  have a: "isAdmin admin0" by (simp add: admin0_def)
  have g: "getConversations api_22
      = Success (Some (map (\<lambda>n. \<lparr>c_id = CHR ''c'' # decimal (int n), c_lastMessage = None\<rparr>) [0..<22]))"
    by (simp add: api_22_def)
  let ?d = "Some (map (\<lambda>n. \<lparr>c_id = CHR ''c'' # decimal (int n), c_lastMessage = None\<rparr>) [0..<22])"
  have ids: "map ue_id (usersList_of ?d) = map (\<lambda>n. CHR ''c'' # decimal (int n)) [0..<22]"
    by (simp add: usersList_of_def summary_user_def Let_def comp_def)
  have ev: "map (\<lambda>n. CHR ''c'' # decimal (int n)) [0..<22]
      = [''c0'', ''c1'', ''c2'', ''c3'', ''c4'', ''c5'', ''c6'', ''c7'', ''c8'', ''c9'', ''c10'',
         ''c11'', ''c12'', ''c13'', ''c14'', ''c15'', ''c16'', ''c17'', ''c18'', ''c19'', ''c20'',
         ''c21'']"
    by code_simp
  have dist: "distinct (map ue_id (usersList_of ?d))"
    unfolding ids ev by simp
  have len: "length (usersList_of ?d) = 22" by (simp add: usersList_of_def)
  have idsev: "map ue_id (usersList_of ?d)
      = [''c0'', ''c1'', ''c2'', ''c3'', ''c4'', ''c5'', ''c6'', ''c7'', ''c8'', ''c9'', ''c10'',
         ''c11'', ''c12'', ''c13'', ''c14'', ''c15'', ''c16'', ''c17'', ''c18'', ''c19'', ''c20'',
         ''c21'']"
    unfolding ids ev ..
  have i21: "ue_id (usersList_of ?d ! 21) = ''c21''"
    using nth_map [of 21 "usersList_of ?d" ue_id] len unfolding idsev by simp
  have i2: "ue_id (usersList_of ?d ! 2) = ''c2''"
    using nth_map [of 2 "usersList_of ?d" ue_id] len unfolding idsev by simp
  have i0: "ue_id (usersList_of ?d ! 0) = ''c0''"
    using nth_map [of 0 "usersList_of ?d" ue_id] len unfolding idsev by simp
  note T = summary_load_first_twenty [OF a g, of state0]
  have s2: "\<not> is_Success (getMessagesOf api_22 2 (ue_id (usersList_of ?d ! 2)))"
    by (simp add: api_22_def)
  have s0: "is_Success (getMessagesOf api_22 0 (ue_id (usersList_of ?d ! 0)))"
    by (simp add: api_22_def)
  from T dist have abs: "\<forall>i < length (usersList_of ?d).
               20 \<le> i \<or> \<not> is_Success (getMessagesOf api_22 i (ue_id (usersList_of ?d ! i))) \<longrightarrow>
               conversations (loadMessages_summary (Some admin0) api_22 state0)
                 (ue_id (usersList_of ?d ! i)) = None"
    by blast
  have c21: "conversations (loadMessages_summary (Some admin0) api_22 state0) ''c21'' = None"
    using abs [THEN spec, of 21] by (simp add: len i21)
  have c2: "conversations (loadMessages_summary (Some admin0) api_22 state0) ''c2'' = None"
    using abs [THEN spec, of 2] s2 by (simp add: len i2)
  have "\<exists>i. ue_id (usersList_of ?d ! 0) = ue_id (usersList_of ?d ! i)
          \<and> i < length (usersList_of ?d) \<and> i < 20
          \<and> is_Success (getMessagesOf api_22 i (ue_id (usersList_of ?d ! i)))"
    using s0 len by (intro exI [of _ 0]) simp
  then have "ue_id (usersList_of ?d ! 0) \<in> dom (conversations (loadMessages_summary (Some admin0) api_22 state0))"
    unfolding T [THEN conjunct2, THEN conjunct1] by simp
  then have c0: "''c0'' \<in> dom (conversations (loadMessages_summary (Some admin0) api_22 state0))"
    by (simp add: i0)
  have l: "length (usersWithMessages (loadMessages_summary (Some admin0) api_22 state0)) = 22"
    using T [THEN conjunct1] len by simp
  have "getConversations api_22_late = getConversations api_22
      \<and> (\<forall>i < 20. getMessagesOf api_22_late i = getMessagesOf api_22 i)"
    by (simp add: api_22_late_def api_22_def)
  then have late: "conversations (loadMessages_summary (Some admin0) api_22_late state0)
       = conversations (loadMessages_summary (Some admin0) api_22 state0)"
    using T [of api_22_late] by blast
  from c21 c2 c0 l late show ?thesis by simp
qed

section \<open>The order of a conversation\<close>

text \<open>
  Claim C8, as stated, fails: the handler of the plain and of the summary-based revision
  appends the payload, so an event dated 5 that arrives after a message dated 10 leaves
  the conversation out of order.
\<close>

theorem plain_handler_appends_out_of_order:
  "ordered state_u7 ''u7''
   \<and> created_times
         (conversation_of (handleMessageReceived_plain (Some admin0) event0 state_u7) ''u7'')
       = Some [10, 5]
   \<and> \<not> ordered (handleMessageReceived_plain (Some admin0) event0 state_u7) ''u7''"
  by (simp add: ordered_def ascending_def conversation_of_def handleMessageReceived_plain_def
      admin0_def event0_def state_u7_def state0_def data_a_def event_senderId_def
      event_payload_def empty_msg_def Let_def)

lemma created_times_canonical:
  "list_all canonical l \<Longrightarrow> created_times l = Some (map time_of l)"
  by (induction l) (simp_all add: createdAt_time_of)

lemma ascending_Nil: "ascending []"
  by (simp add: ascending_def)

lemma ascending_normalizeMessagesArray: "ascending (normalizeMessagesArray w arr)"
  by (simp add: ascending_def created_times_canonical canonical_normalizeMessagesArray
      sorted_normalizeMessagesArray)

lemma ordered_update:
  "conversations s' = (conversations s)(k \<mapsto> normalizeMessagesArray w arr) \<Longrightarrow> ordered s' k"
  by (simp add: ordered_def conversation_of_def ascending_normalizeMessagesArray)

lemma ordered_handleMessageReceived:
  "isAdmin u \<Longrightarrow> event_senderId d = Some k \<Longrightarrow> ordered (handleMessageReceived (Some u) e w d s) k"
  by (rule ordered_update [of _ s k w]) (simp add: handleMessageReceived_def Let_def)

lemma ordered_sendMessage_success:
  "ordered (sendMessage (Some u) (Success (data, ar)) w text s) (conversationId_of u data)"
  by (cases ar)
     (simp_all add: ordered_def conversation_of_def conversations_sendMessage_success
       ascending_normalizeMessagesArray)

lemma ordered_sendMessage_catch:
  "ordered (sendMessage_catch u w text s) (u_id u)"
  by (rule ordered_update [of _ s _ "w 5"]) (simp add: sendMessage_catch_def Let_def)

lemma ordered_sendMessageToUser:
  "isAdmin u \<Longrightarrow> ordered (sendMessageToUser (Some u) resp w userId text s) userId"
  by (cases resp)
     (simp_all add: sendMessageToUser_def sendMessageToUser_catch_def Let_def ordered_def
       conversation_of_def ascending_normalizeMessagesArray)

lemma ordered_loadMessages_user:
  "\<not> isAdmin u \<Longrightarrow> ordered (loadMessages (Some u) a wl s) k"
  by (auto simp: loadMessages_def loadMessages_user_def set_own_conversation_def ordered_def
      conversation_of_def ascending_normalizeMessagesArray ascending_Nil
      split: response.splits option.splits)

lemma ordered_loadMessages_admin:
  assumes "isAdmin u" and "getAdminAllMessages a = Success d"
  shows "ordered (loadMessages (Some u) a wl s) k"
  unfolding ordered_def conversation_of_def conversations_loadMessages_admin [OF assms]
  by (simp add: ascending_normalizeMessagesArray ascending_Nil split: response.splits)

lemma loadMessages_admin_fallback:
  assumes "isAdmin u"
    and "getAdminAllMessages a = Failure x \<or> getAdminAllMessages a = Rejected"
  shows "conversations (loadMessages (Some u) a wl s) = getLocalConversations (storage s)"
  using assms
  by (auto simp: loadMessages_def loadMessages_admin_def local_fallback_admin_def)

lemma appended_handleMessageReceived_plain:
  "isAdmin u \<Longrightarrow> event_senderId d = Some k \<Longrightarrow>
     conversation_of (handleMessageReceived_plain (Some u) d s) k
       = conversation_of s k @ [event_payload d]"
  by (simp add: handleMessageReceived_plain_def conversation_of_def)

lemma appended_sendMessageToUser_plain:
  "isAdmin u \<Longrightarrow>
     \<exists>m. conversation_of (sendMessageToUser_plain (Some u) resp e userId text s) userId
            = conversation_of s userId @ [m]
        \<and> (case resp of Success sent \<Rightarrow> m = sent | Failure y \<Rightarrow> m_pending m
            | Rejected \<Rightarrow> m_pending m)"
  by (cases resp)
     (simp_all add: sendMessageToUser_plain_def conversation_of_def Let_def empty_msg_def)

lemma appended_sendMessage_summary:
  "\<exists>ms. conversation_of (sendMessage_summary (Some u) resp e text s)
            (case resp of Success p \<Rightarrow> conversationId_summary u (fst p)
             | Failure y \<Rightarrow> own_key u | Rejected \<Rightarrow> own_key u)
          = conversation_of s
              (case resp of Success p \<Rightarrow> conversationId_summary u (fst p)
               | Failure y \<Rightarrow> own_key u | Rejected \<Rightarrow> own_key u) @ ms
      \<and> (case resp of
            Success p \<Rightarrow>
              ms = sent_summary (fst p)
                     # (case snd p of None \<Rightarrow> [] | Some r \<Rightarrow> [autoReply_summary r])
          | Failure y \<Rightarrow> length ms = 1 \<and> list_all m_pending ms
          | Rejected \<Rightarrow> length ms = 1 \<and> list_all m_pending ms)"
proof (cases resp)
  case (Success p)
  then show ?thesis
    by (cases "snd p")
       (simp_all add: sendMessage_summary_def conversation_of_def Let_def
         conversationId_summary_def)
next
  case (Failure y)
  then show ?thesis
    by (simp add: sendMessage_summary_def conversation_of_def Let_def empty_msg_def)
next
  case Rejected
  then show ?thesis
    by (simp add: sendMessage_summary_def conversation_of_def Let_def empty_msg_def)
qed

text \<open>
  Claim C8, amended. In the normalizing revision every operation that writes a conversation
  through \<^verbatim>\<open>normalizeMessagesArray\<close> leaves it ordered: the handler of
  \<^verbatim>\<open>message-received\<close>, \<^verbatim>\<open>sendMessage\<close> on success and on failure,
  \<^verbatim>\<open>sendMessageToUser\<close>, every load of a user who is no admin, and the load of an admin
  whose all-messages request succeeds. (The load of an admin that falls back to local
  persistence returns the stored lists, lemma \<open>loadMessages_admin_fallback\<close>, and is
  not part of the statement.) The plain and the summary-based revision do not sort on
  insert: their handler and their \<^verbatim>\<open>sendMessageToUser\<close>, and \<^verbatim>\<open>sendMessage\<close> of the
  summary-based revision, put the new records behind the ones the conversation had, on
  success and on failure.
\<close>

theorem conversation_order_by_revision:
  "(isAdmin u \<and> event_senderId d = Some k \<longrightarrow>
      ordered (handleMessageReceived (Some u) e w1 d s) k)
   \<and> ordered (sendMessage (Some u) (Success (data, ar)) w text s) (conversationId_of u data)
   \<and> (resp = Failure x \<or> resp = Rejected \<longrightarrow>
        ordered (sendMessage (Some u) resp w text s) (u_id u))
   \<and> (isAdmin u \<longrightarrow> ordered (sendMessageToUser (Some u) resp2 w userId text s) userId)
   \<and> (\<not> isAdmin u \<longrightarrow> ordered (loadMessages (Some u) a wl s) j)
   \<and> (isAdmin u \<and> getAdminAllMessages a = Success r \<longrightarrow>
        ordered (loadMessages (Some u) a wl s) j)
   \<and> (isAdmin u \<and> event_senderId d = Some k \<longrightarrow>
        conversation_of (handleMessageReceived_plain (Some u) d s) k
          = conversation_of s k @ [event_payload d])
   \<and> (isAdmin u \<longrightarrow>
        (\<exists>m. conversation_of (sendMessageToUser_plain (Some u) resp2 e userId text s) userId
               = conversation_of s userId @ [m]
           \<and> (case resp2 of Success sent \<Rightarrow> m = sent | Failure y \<Rightarrow> m_pending m
               | Rejected \<Rightarrow> m_pending m)))
   \<and> (\<exists>ms. conversation_of (sendMessage_summary (Some u) resp e text s)
               (case resp of Success p \<Rightarrow> conversationId_summary u (fst p)
                | Failure y \<Rightarrow> own_key u | Rejected \<Rightarrow> own_key u)
             = conversation_of s
                 (case resp of Success p \<Rightarrow> conversationId_summary u (fst p)
                  | Failure y \<Rightarrow> own_key u | Rejected \<Rightarrow> own_key u) @ ms
         \<and> (case resp of
               Success p \<Rightarrow>
                 ms = sent_summary (fst p)
                        # (case snd p of None \<Rightarrow> [] | Some r \<Rightarrow> [autoReply_summary r])
             | Failure y \<Rightarrow> length ms = 1 \<and> list_all m_pending ms
             | Rejected \<Rightarrow> length ms = 1 \<and> list_all m_pending ms))"
proof -
  have 3: "resp = Failure x \<or> resp = Rejected \<longrightarrow>
        ordered (sendMessage (Some u) resp w text s) (u_id u)"
    by (auto simp: sendMessage_def ordered_sendMessage_catch)
  have n: "(isAdmin u \<and> event_senderId d = Some k \<longrightarrow>
      ordered (handleMessageReceived (Some u) e w1 d s) k)
   \<and> ordered (sendMessage (Some u) (Success (data, ar)) w text s) (conversationId_of u data)
   \<and> (resp = Failure x \<or> resp = Rejected \<longrightarrow>
        ordered (sendMessage (Some u) resp w text s) (u_id u))
   \<and> (isAdmin u \<longrightarrow> ordered (sendMessageToUser (Some u) resp2 w userId text s) userId)
   \<and> (\<not> isAdmin u \<longrightarrow> ordered (loadMessages (Some u) a wl s) j)
   \<and> (isAdmin u \<and> getAdminAllMessages a = Success r \<longrightarrow>
        ordered (loadMessages (Some u) a wl s) j)"
    using 3
    by (simp add: ordered_handleMessageReceived ordered_sendMessage_success
        ordered_sendMessageToUser ordered_loadMessages_user ordered_loadMessages_admin)
  have p1: "isAdmin u \<and> event_senderId d = Some k \<longrightarrow>
        conversation_of (handleMessageReceived_plain (Some u) d s) k
          = conversation_of s k @ [event_payload d]"
    by (simp add: appended_handleMessageReceived_plain)
  have p2: "isAdmin u \<longrightarrow>
        (\<exists>m. conversation_of (sendMessageToUser_plain (Some u) resp2 e userId text s) userId
               = conversation_of s userId @ [m]
           \<and> (case resp2 of Success sent \<Rightarrow> m = sent | Failure y \<Rightarrow> m_pending m
               | Rejected \<Rightarrow> m_pending m))"
    using appended_sendMessageToUser_plain [of u resp2 e userId "text" s] by blast
  note p3 = appended_sendMessage_summary [of u resp e "text" s]
  show ?thesis
    using n p1 p2 p3 by (intro conjI) (assumption | (elim conjE, assumption))+
qed

text \<open>An admin and a user at concrete sessions.\<close>

theorem conversation_order_witness:
  "ordered (handleMessageReceived (Some admin0) tick0 (\<lambda>i. tick0) event0 state_u7) ''u7''
   \<and> ordered (sendMessageToUser (Some admin0) Rejected (\<lambda>k i. tick0) ''u7'' ''hello'' state_u7) ''u7''
   \<and> ordered (loadMessages (Some admin0) api0 (\<lambda>uid i. tick0) state_u7) ''A''
   \<and> ordered (sendMessage (Some user0) Rejected (\<lambda>k i. tick0) ''hello'' state_u7) ''u1''
   \<and> ordered (loadMessages (Some user0) api0 (\<lambda>uid i. tick0) state_u7) ''u1''
   \<and> conversation_of (handleMessageReceived_plain (Some admin0) event0 state_u7) ''u7''
       = conversation_of state_u7 ''u7'' @ [event_payload event0]"
proof -
  have a: "isAdmin admin0" "\<not> isAdmin user0" "u_id user0 = ''u1''"
    by (simp_all add: admin0_def user0_def)
  have k: "event_senderId event0 = Some ''u7''" by (simp add: event_senderId_def event0_def)
  have g: "getAdminAllMessages api0 = Success (Some [msg_A, msg_B])" by (simp add: api0_def)
  note A = conversation_order_by_revision [of admin0 event0 "''u7''" tick0 "\<lambda>i. tick0" state_u7
      data_a None "\<lambda>k i. tick0" "''hello''" Rejected None Rejected "''u7''" api0 "\<lambda>uid i. tick0"
      "''A''" "Some [msg_A, msg_B]"]
  note U = conversation_order_by_revision [of user0 event0 "''u7''" tick0 "\<lambda>i. tick0" state_u7
      data_a None "\<lambda>k i. tick0" "''hello''" Rejected None Rejected "''u7''" api0 "\<lambda>uid i. tick0"
      "''u1''" "Some [msg_A, msg_B]"]
  from A a k g U show ?thesis by simp
qed

section \<open>A failed fetch of one conversation\<close>

lemma foldl_fold_result_other:
  "k \<notin> set (map (\<lambda>r. ue_id (snd r)) l) \<Longrightarrow> foldl (fold_result a) cm l k = cm k"
proof (induction l arbitrary: cm)
  case Nil
  show ?case by simp
next
  case (Cons x l)
  then show ?case
    by (cases "getMessagesOf a (fst x) (ue_id (snd x))") (simp_all add: fold_result_def)
qed

lemma foldl_fold_result_value:
  assumes "distinct (map (\<lambda>r. ue_id (snd r)) l)" and "r \<in> set l"
  shows "foldl (fold_result a) cm l (ue_id (snd r))
     = (case getMessagesOf a (fst r) (ue_id (snd r)) of
          Success d \<Rightarrow> Some (rev (map normalized_summary (case d of Some l \<Rightarrow> l | None \<Rightarrow> [])))
        | Failure y \<Rightarrow> cm (ue_id (snd r))
        | Rejected \<Rightarrow> cm (ue_id (snd r)))"
  using assms
proof (induction l arbitrary: cm)
  case Nil
  then show ?case by simp
next
  case (Cons x l)
  show ?case
  proof (cases "r = x")
    case True
    have "ue_id (snd x) \<notin> set (map (\<lambda>r. ue_id (snd r)) l)"
      using Cons.prems(1) by simp
    then have f: "foldl (fold_result a) (fold_result a cm x) l (ue_id (snd x))
        = fold_result a cm x (ue_id (snd x))"
      by (rule foldl_fold_result_other)
    have v: "fold_result a cm x (ue_id (snd x))
        = (case getMessagesOf a (fst x) (ue_id (snd x)) of
             Success d \<Rightarrow>
               Some (rev (map normalized_summary (case d of Some l \<Rightarrow> l | None \<Rightarrow> [])))
           | Failure y \<Rightarrow> cm (ue_id (snd x))
           | Rejected \<Rightarrow> cm (ue_id (snd x)))"
      by (cases "getMessagesOf a (fst x) (ue_id (snd x))") (simp_all add: fold_result_def)
    show ?thesis
      unfolding True using f v by simp
  next
    case False
    then have rl: "r \<in> set l" using Cons.prems(2) by simp
    have d: "distinct (map (\<lambda>r. ue_id (snd r)) l)" using Cons.prems(1) by simp
    have "ue_id (snd x) \<noteq> ue_id (snd r)"
      using Cons.prems(1) rl by auto
    then have k: "fold_result a cm x (ue_id (snd r)) = cm (ue_id (snd r))"
      by (cases "getMessagesOf a (fst x) (ue_id (snd x))") (simp_all add: fold_result_def)
    show ?thesis
      using Cons.IH [OF d rl, of "fold_result a cm x"] unfolding k by simp
  qed
qed

text \<open>
  Claim C5, as stated, fails in the summary-based revision: \<^verbatim>\<open>B\<close> is in the Known-user
  list, its fetch is rejected, and the state has no conversation for it, although the
  summary carried its last message.
\<close>

theorem summary_failed_fetch_leaves_no_conversation:
  "map ue_id (usersWithMessages (loadMessages_summary (Some admin0) api_AB state0))
     = [''A'', ''B'']
   \<and> getMessagesOf api_AB 1 ''B'' = Rejected
   \<and> conversations (loadMessages_summary (Some admin0) api_AB state0) ''B'' = None"
  by (simp add: loadMessages_summary_def loadMessages_summary_admin_def admin0_def api_AB_def
      Let_def summary_user_def fold_result_def enumerate_eq_zip)

lemma loadMessages_admin_fetches:
  assumes "isAdmin u" and "getAdminAllMessages a = Success (Some msgs)"
    and "m0 \<in> set msgs" and "convId m0 = Some failed"
    and "getMessagesForConversation a failed = Failure x
         \<or> getMessagesForConversation a failed = Rejected"
  shows "conversations (loadMessages (Some u) a wl s) failed
           = Some (normalizeMessagesArray (wl failed)
               (map Some (filter (\<lambda>m. convId m = Some failed) msgs)))
       \<and> (\<forall>uid m d. m \<in> set msgs \<and> convId m = Some uid
              \<and> getMessagesForConversation a uid = Success d \<longrightarrow>
            conversations (loadMessages (Some u) a wl s) uid
              = Some (normalizeMessagesArray (wl uid)
                  (map Some (case d of Some l \<Rightarrow> l | None \<Rightarrow> []))))
       \<and> dom (conversations (loadMessages (Some u) a wl s))
           = {uid. \<exists>m \<in> set msgs. convId m = Some uid}
       \<and> \<not> loading (loadMessages (Some u) a wl s)"
proof -
  have ne: "\<And>uid m. m \<in> set msgs \<Longrightarrow> convId m = Some uid \<Longrightarrow>
      filter (\<lambda>m. convId m = Some uid) msgs \<noteq> []"
    by (auto simp: filter_empty_conv)
  have 1: "conversations (loadMessages (Some u) a wl s) failed
           = Some (normalizeMessagesArray (wl failed)
               (map Some (filter (\<lambda>m. convId m = Some failed) msgs)))"
    using assms(5) ne [OF assms(3) assms(4)]
    unfolding conversations_loadMessages_admin [OF assms(1) assms(2)] by auto
  have 2: "\<forall>uid m d. m \<in> set msgs \<and> convId m = Some uid
              \<and> getMessagesForConversation a uid = Success d \<longrightarrow>
            conversations (loadMessages (Some u) a wl s) uid
              = Some (normalizeMessagesArray (wl uid)
                  (map Some (case d of Some l \<Rightarrow> l | None \<Rightarrow> [])))"
    unfolding conversations_loadMessages_admin [OF assms(1) assms(2)] using ne by auto
  have 3: "dom (conversations (loadMessages (Some u) a wl s))
           = {uid. \<exists>m \<in> set msgs. convId m = Some uid}"
    unfolding dom_def conversations_loadMessages_admin [OF assms(1) assms(2)]
    by (auto simp: filter_empty_conv)
  have 4: "\<not> loading (loadMessages (Some u) a wl s)"
    by (simp add: loadMessages_def)
  show ?thesis
    using 1 2 3 4 by (intro conjI) assumption+
qed

lemma loadMessages_summary_fetches:
  assumes "isAdmin u"
  shows "getConversations b = Success c \<and> distinct (map ue_id (usersList_of c))
              \<and> i < length (usersList_of c) \<and> i < 20 \<longrightarrow>
            conversations (loadMessages_summary (Some u) b s) (ue_id (usersList_of c ! i))
              = (case getMessagesOf b i (ue_id (usersList_of c ! i)) of
                   Success r \<Rightarrow>
                     Some (rev (map normalized_summary (case r of Some l \<Rightarrow> l | None \<Rightarrow> [])))
                 | Failure y \<Rightarrow> None
                 | Rejected \<Rightarrow> None)"
proof
  assume h: "getConversations b = Success c \<and> distinct (map ue_id (usersList_of c))
            \<and> i < length (usersList_of c) \<and> i < 20"
  let ?l = "enumerate 0 (take 20 (usersList_of c))"
  have "map (\<lambda>r. ue_id (snd r)) ?l = take 20 (map ue_id (usersList_of c))"
    by (simp add: take_map flip: map_map [unfolded comp_def])
  then have dl: "distinct (map (\<lambda>r. ue_id (snd r)) ?l)"
    using h by simp
  have m: "(i, usersList_of c ! i) \<in> set ?l"
    using h by (simp add: in_set_enumerate_eq)
  show "conversations (loadMessages_summary (Some u) b s) (ue_id (usersList_of c ! i))
            = (case getMessagesOf b i (ue_id (usersList_of c ! i)) of
                 Success r \<Rightarrow>
                   Some (rev (map normalized_summary (case r of Some l \<Rightarrow> l | None \<Rightarrow> [])))
               | Failure y \<Rightarrow> None
               | Rejected \<Rightarrow> None)"
    using foldl_fold_result_value [OF dl m, of b Map.empty] h
    by (simp add: conversations_loadMessages_summary [OF assms(1)] split: response.splits)
qed

text \<open>
  Claim C5, amended. In an admin session of the normalizing revision whose all-messages
  request succeeds, a discovered user whose own fetch fails (rejected, or
  \<^verbatim>\<open>success: false\<close>) gets the normalized messages that the all-messages response grouped
  under that user; every discovered user whose fetch succeeds gets the normalized result of
  that fetch, whatever happened to the other fetches; the conversations are exactly those
  of the discovered users. In an admin session of the summary-based revision whose summary
  request succeeds with distinct identifiers, each of the first twenty users has the
  rebuilt and reversed result of its own fetch when that fetch succeeds, and no conversation
  when it fails, whatever happened to the other fetches. Both loads end with the loading
  flag cleared.
\<close>

theorem failed_fetch_isolated:
  assumes "isAdmin u"
  shows "(getAdminAllMessages a = Success (Some msgs) \<and> m0 \<in> set msgs
            \<and> convId m0 = Some failed
            \<and> (getMessagesForConversation a failed = Failure x
                 \<or> getMessagesForConversation a failed = Rejected) \<longrightarrow>
          conversations (loadMessages (Some u) a wl s) failed
            = Some (normalizeMessagesArray (wl failed)
                (map Some (filter (\<lambda>m. convId m = Some failed) msgs)))
          \<and> (\<forall>uid m d. m \<in> set msgs \<and> convId m = Some uid
                 \<and> getMessagesForConversation a uid = Success d \<longrightarrow>
               conversations (loadMessages (Some u) a wl s) uid
                 = Some (normalizeMessagesArray (wl uid)
                     (map Some (case d of Some l \<Rightarrow> l | None \<Rightarrow> []))))
          \<and> dom (conversations (loadMessages (Some u) a wl s))
              = {uid. \<exists>m \<in> set msgs. convId m = Some uid})
       \<and> \<not> loading (loadMessages (Some u) a wl s)
       \<and> (getConversations b = Success c \<and> distinct (map ue_id (usersList_of c))
              \<and> i < length (usersList_of c) \<and> i < 20 \<longrightarrow>
            conversations (loadMessages_summary (Some u) b s) (ue_id (usersList_of c ! i))
              = (case getMessagesOf b i (ue_id (usersList_of c ! i)) of
                   Success r \<Rightarrow>
                     Some (rev (map normalized_summary (case r of Some l \<Rightarrow> l | None \<Rightarrow> [])))
                 | Failure y \<Rightarrow> None
                 | Rejected \<Rightarrow> None))
       \<and> \<not> loading (loadMessages_summary (Some u) b s)"
proof -
  have 1: "getAdminAllMessages a = Success (Some msgs) \<and> m0 \<in> set msgs
            \<and> convId m0 = Some failed
            \<and> (getMessagesForConversation a failed = Failure x
                 \<or> getMessagesForConversation a failed = Rejected) \<longrightarrow>
          conversations (loadMessages (Some u) a wl s) failed
            = Some (normalizeMessagesArray (wl failed)
                (map Some (filter (\<lambda>m. convId m = Some failed) msgs)))
          \<and> (\<forall>uid m d. m \<in> set msgs \<and> convId m = Some uid
                 \<and> getMessagesForConversation a uid = Success d \<longrightarrow>
               conversations (loadMessages (Some u) a wl s) uid
                 = Some (normalizeMessagesArray (wl uid)
                     (map Some (case d of Some l \<Rightarrow> l | None \<Rightarrow> []))))
          \<and> dom (conversations (loadMessages (Some u) a wl s))
              = {uid. \<exists>m \<in> set msgs. convId m = Some uid}"
  proof
    assume h: "getAdminAllMessages a = Success (Some msgs) \<and> m0 \<in> set msgs
            \<and> convId m0 = Some failed
            \<and> (getMessagesForConversation a failed = Failure x
                 \<or> getMessagesForConversation a failed = Rejected)"
    then have g: "getAdminAllMessages a = Success (Some msgs)" and m: "m0 \<in> set msgs"
      and k: "convId m0 = Some failed"
      and f: "getMessagesForConversation a failed = Failure x
                 \<or> getMessagesForConversation a failed = Rejected"
      by simp_all
    from loadMessages_admin_fetches [OF assms g m k f, of wl s]
    show "conversations (loadMessages (Some u) a wl s) failed
            = Some (normalizeMessagesArray (wl failed)
                (map Some (filter (\<lambda>m. convId m = Some failed) msgs)))
          \<and> (\<forall>uid m d. m \<in> set msgs \<and> convId m = Some uid
                 \<and> getMessagesForConversation a uid = Success d \<longrightarrow>
               conversations (loadMessages (Some u) a wl s) uid
                 = Some (normalizeMessagesArray (wl uid)
                     (map Some (case d of Some l \<Rightarrow> l | None \<Rightarrow> []))))
          \<and> dom (conversations (loadMessages (Some u) a wl s))
              = {uid. \<exists>m \<in> set msgs. convId m = Some uid}"
      by (elim conjE, intro conjI) assumption+
  qed
  have 2: "\<not> loading (loadMessages (Some u) a wl s)"
    by (simp add: loadMessages_def)
  note 3 = loadMessages_summary_fetches [OF assms, of b c i s]
  have 4: "\<not> loading (loadMessages_summary (Some u) b s)"
    by (simp add: loadMessages_summary_def)
  show ?thesis
    using 1 2 3 4 by (intro conjI) assumption+
qed

text \<open>The scenario with the conversations \<^verbatim>\<open>A\<close> and \<^verbatim>\<open>B\<close>, in both revisions.\<close>

theorem failed_fetch_witness:
  "conversations (loadMessages (Some admin0) api0 (\<lambda>uid i. tick0) state0) ''B''
     = Some (normalizeMessagesArray (\<lambda>i. tick0) [Some msg_B])
   \<and> conversations (loadMessages (Some admin0) api0 (\<lambda>uid i. tick0) state0) ''A''
     = Some (normalizeMessagesArray (\<lambda>i. tick0) (map Some fetched_A))
   \<and> map m_id (normalizeMessagesArray (\<lambda>i. tick0) (map Some fetched_A))
     = [Some (IdStr ''a1''), Some (IdStr ''a2''), Some (IdStr ''a3'')]
   \<and> conversations (loadMessages_summary (Some admin0) api_AB state0) ''B'' = None
   \<and> conversations (loadMessages_summary (Some admin0) api_AB state0) ''A''
     = Some (rev (map normalized_summary fetched_A))"
proof -
  have a: "isAdmin admin0" by (simp add: admin0_def)
  have g: "getAdminAllMessages api0 = Success (Some [msg_A, msg_B])" by (simp add: api0_def)
  have mB: "msg_B \<in> set [msg_A, msg_B]" by simp
  have cA: "convId msg_A = Some ''A''"
    by (simp add: convId_def msg_A_def empty_msg_def)
  have cB: "convId msg_B = Some ''B''"
    by (simp add: convId_def msg_B_def empty_msg_def party_id_def)
  have f: "getMessagesForConversation api0 ''B'' = Failure None
           \<or> getMessagesForConversation api0 ''B'' = Rejected"
    by (simp add: api0_def)
  have fA: "getMessagesForConversation api0 ''A'' = Success (Some fetched_A)"
    by (simp add: api0_def)
  have e: "map m_id (normalizeMessagesArray (\<lambda>i. tick0) (map Some fetched_A))
     = [Some (IdStr ''a1''), Some (IdStr ''a2''), Some (IdStr ''a3'')]"
    by (simp add: fetched_A_def normalizeMessagesArray_def array_sort_def normalizeMessage_def
      normalize_record_def coalesce_id_def coalesce_createdAt_def coalesce_senderType_def
      by_createdAt_def time_of_def empty_msg_def)
  have hn: "getAdminAllMessages api0 = Success (Some [msg_A, msg_B])
      \<and> msg_B \<in> set [msg_A, msg_B] \<and> convId msg_B = Some ''B''
      \<and> (getMessagesForConversation api0 ''B'' = Failure None
           \<or> getMessagesForConversation api0 ''B'' = Rejected)"
    using g mB cB f by simp
  note T = failed_fetch_isolated [OF a,
      where a = api0 and msgs = "[msg_A, msg_B]" and ?m0.0 = msg_B and failed = "''B''"
        and x = None and wl = "\<lambda>uid i. tick0" and s = state0,
      THEN conjunct1, THEN mp, OF hn]
  have fB: "filter (\<lambda>m. convId m = Some ''B'') [msg_A, msg_B] = [msg_B]"
    by (simp add: cA cB)
  have B: "conversations (loadMessages (Some admin0) api0 (\<lambda>uid i. tick0) state0) ''B''
     = Some (normalizeMessagesArray (\<lambda>i. tick0) [Some msg_B])"
    using T [THEN conjunct1] unfolding fB by simp
  have A: "conversations (loadMessages (Some admin0) api0 (\<lambda>uid i. tick0) state0) ''A''
     = Some (normalizeMessagesArray (\<lambda>i. tick0) (map Some fetched_A))"
  proof -
    have mA: "msg_A \<in> set [msg_A, msg_B]" by simp
    from T [THEN conjunct2, THEN conjunct1] mA cA fA
    have "conversations (loadMessages (Some admin0) api0 (\<lambda>uid i. tick0) state0) ''A''
       = Some (normalizeMessagesArray (\<lambda>i. tick0)
           (map Some (case Some fetched_A of Some l \<Rightarrow> l | None \<Rightarrow> [])))"
      by blast
    then show ?thesis by simp
  qed
  let ?d = "Some [\<lparr>c_id = ''A'', c_lastMessage = Some msg_A\<rparr>,
                  \<lparr>c_id = ''B'', c_lastMessage = Some msg_B\<rparr>]"
  have gs: "getConversations api_AB = Success ?d" by (simp add: api_AB_def)
  have us: "map ue_id (usersList_of ?d) = [''A'', ''B'']"
    by (simp add: usersList_of_def summary_user_def Let_def)
  have len: "length (usersList_of ?d) = 2" by (simp add: usersList_of_def)
  have dist: "distinct (map ue_id (usersList_of ?d))" unfolding us by simp
  have u0: "ue_id (usersList_of ?d ! 0) = ''A''"
    using nth_map [of 0 "usersList_of ?d" ue_id] len unfolding us by simp
  have u1: "ue_id (usersList_of ?d ! 1) = ''B''"
    using nth_map [of 1 "usersList_of ?d" ue_id] len unfolding us by simp
  note S0 = failed_fetch_isolated [OF a,
      where s = state0 and b = api_AB and c = ?d and i = 0,
      THEN conjunct2, THEN conjunct2, THEN conjunct1]
  note S1 = failed_fetch_isolated [OF a,
      where s = state0 and b = api_AB and c = ?d and i = 1,
      THEN conjunct2, THEN conjunct2, THEN conjunct1]
  have h0: "getConversations api_AB = Success ?d \<and> distinct (map ue_id (usersList_of ?d))
      \<and> 0 < length (usersList_of ?d) \<and> (0::nat) < 20"
    using gs dist len by simp
  have h1: "getConversations api_AB = Success ?d \<and> distinct (map ue_id (usersList_of ?d))
      \<and> 1 < length (usersList_of ?d) \<and> (1::nat) < 20"
    using gs dist len by simp
  have SA: "conversations (loadMessages_summary (Some admin0) api_AB state0) ''A''
     = Some (rev (map normalized_summary fetched_A))"
    using S0 [THEN mp, OF h0] unfolding u0
    by (simp add: api_AB_def)
  have SB: "conversations (loadMessages_summary (Some admin0) api_AB state0) ''B'' = None"
    using S1 [THEN mp, OF h1] unfolding u1
    by (simp add: api_AB_def)
  from A B e SA SB show ?thesis by simp
qed

end
